theory Spec2Isabelle
  imports Complex_Main
begin

section \<open>Numbers\<close>

text \<open>
  The TypeScript type \<^verbatim>\<open>number\<close> is modelled by the rationals: every weight, repetition
  count and number of seconds that appears below is taken with exact arithmetic. Where
  a property depends on the rounding of the program's double-precision arithmetic, that
  arithmetic is written out (section ``IEEE double arithmetic''). The
  values \<^verbatim>\<open>null\<close> and \<^verbatim>\<open>undefined\<close> of an optional field are \<open>None\<close>.
\<close>

type_synonym number = rat

text \<open>\<^verbatim>\<open>Math.round\<close>: the nearest integer, a tie going towards plus infinity.\<close>

definition Math_round :: "number \<Rightarrow> number" where
  "Math_round x = of_int \<lfloor>x + 1 / 2\<rfloor>"

text \<open>
  Truthiness of an optional number, as \<^verbatim>\<open>a && b ? ... : ...\<close> tests it: \<^verbatim>\<open>null\<close>,
  \<^verbatim>\<open>undefined\<close> and \<^verbatim>\<open>0\<close> are falsy.
\<close>

definition truthy :: "number option \<Rightarrow> bool" where
  "truthy v = (case v of None \<Rightarrow> False | Some x \<Rightarrow> x \<noteq> 0)"

text \<open>The nullish coalescing operator \<^verbatim>\<open>v ?? d\<close>.\<close>

definition nullish :: "'a option \<Rightarrow> 'a \<Rightarrow> 'a" where
  "nullish v d = (case v of None \<Rightarrow> d | Some x \<Rightarrow> x)"

section \<open>Scoring (utils/calculations)\<close>

text \<open>
  \<^verbatim>\<open>
  export function estimate1RM(weight: number, reps: number): number {
    if (reps === 1) return weight;
    return weight * (1 + reps / 30);
  }
  \<close>
\<close>

text \<open>With exact arithmetic (the rounded computation is \<open>estimate1RM_ieee\<close> below):\<close>

definition estimate1RM :: "number \<Rightarrow> number \<Rightarrow> number" where
  "estimate1RM weight reps = (if reps = 1 then weight else weight * (1 + reps / 30))"

text \<open>
  The plate calculator. An entry \<^verbatim>\<open>{ weight, count }\<close> of \<^verbatim>\<open>perSide\<close> is the pair
  \<open>(weight, count)\<close>; \<^verbatim>\<open>Math.floor\<close> is \<open>\<lfloor>_\<rfloor>\<close>. The loop over the plates carries
  \<^verbatim>\<open>perSide\<close> (\<open>side\<close>) and \<^verbatim>\<open>remaining\<close> (\<open>rest\<close>). The source's second parameter has the default value 20.
\<close>

record PlateResult =
  perSide :: "(number \<times> int) list"
  remainder :: number

definition STANDARD_PLATES_KG :: "number list" where
  "STANDARD_PLATES_KG = [25, 20, 15, 10, 5, 5 / 2, 5 / 4]"

fun platesLoop :: "number list \<Rightarrow> (number \<times> int) list \<Rightarrow> number \<Rightarrow> (number \<times> int) list \<times> number" where
  "platesLoop [] side rest = (side, rest)"
| "platesLoop (plate # plates) side rest =
     (let count = \<lfloor>rest / plate\<rfloor> in
      if count > 0
      then platesLoop plates (side @ [(plate, count)]) (rest - of_int count * plate)
      else platesLoop plates side rest)"

definition calculatePlates :: "number \<Rightarrow> number \<Rightarrow> PlateResult" where
  "calculatePlates totalKg barWeightKg =
     (case platesLoop STANDARD_PLATES_KG [] ((totalKg - barWeightKg) / 2) of
        (side, rest) \<Rightarrow>
          \<lparr>perSide = side, remainder = Math_round (rest * 100) / 100\<rparr>)"

text \<open>The load that a per-side selection puts on one side of the bar.\<close>

definition sideLoad :: "(number \<times> int) list \<Rightarrow> number" where
  "sideLoad ps = sum_list (map (\<lambda>(w, c). w * of_int c) ps)"

section \<open>IEEE double arithmetic\<close>

text \<open>
  The program's numbers are IEEE doubles. Where a property depends on rounding, their
  arithmetic is written out. A number is a finite double, an infinity or NaN; a finite
  double is a rational \<open>m * 2 powi u\<close> with \<open>\<bar>m\<bar> \<le> 2 ^ 53\<close> and \<open>- 1074 \<le> u \<le> 971\<close>, and the
  two zeros are not told apart. An operation returns the exact result rounded to the
  nearest double, a tie going to the even significand; a result that rounds to
  \<open>2 ^ 1024\<close> or beyond goes to an infinity.

  \<open>ulpExp x\<close> is the exponent of the spacing of the doubles around \<open>x\<close>: the largest \<open>u\<close> from
  \<open>- 1073\<close> to \<open>971\<close> with \<open>2 powi (u + 52) \<le> \<bar>x\<bar>\<close>, and \<open>- 1074\<close> when \<open>\<bar>x\<bar>\<close> is below
  \<open>2 powi (- 1021)\<close> (the subnormal numbers and the first normal ones). \<open>findExp n\<close> tries
  the \<open>n\<close> smallest of these exponents, from the largest down. \<open>roundEven\<close> rounds to the
  nearest integer, a tie going to the even one, and \<open>fl\<close> rounds a rational to a double.
\<close>

datatype double = Fin rat | PosInf | NegInf | NaN

fun findExp :: "nat \<Rightarrow> rat \<Rightarrow> int" where
  "findExp 0 x = - 1074"
| "findExp (Suc n) x =
     (if 2 powi (int n - 1021) \<le> \<bar>x\<bar> then int n - 1073 else findExp n x)"

definition ulpExp :: "rat \<Rightarrow> int" where
  "ulpExp x = findExp 2045 x"

definition roundEven :: "rat \<Rightarrow> int" where
  "roundEven y =
     (let f = \<lfloor>y\<rfloor>; d = y - of_int f
      in if d < 1 / 2 then f
         else if 1 / 2 < d then f + 1
         else if even f then f else f + 1)"

definition fl :: "rat \<Rightarrow> double" where
  "fl x =
     (let u = ulpExp x;
          y = of_int (roundEven (x / 2 powi u)) * 2 powi u
      in if 2 powi 1024 \<le> y then PosInf
         else if y \<le> - (2 powi 1024) then NegInf
         else Fin y)"

text \<open>
  Addition, multiplication, division, \<^verbatim>\<open>===\<close> and \<^verbatim>\<open>>\<close> on doubles. A division of a finite
  number by zero takes the sign of the dividend.
\<close>

fun dadd :: "double \<Rightarrow> double \<Rightarrow> double" where
  "dadd NaN _ = NaN"
| "dadd _ NaN = NaN"
| "dadd PosInf NegInf = NaN"
| "dadd NegInf PosInf = NaN"
| "dadd PosInf _ = PosInf"
| "dadd _ PosInf = PosInf"
| "dadd NegInf _ = NegInf"
| "dadd _ NegInf = NegInf"
| "dadd (Fin a) (Fin b) = fl (a + b)"

fun dmul :: "double \<Rightarrow> double \<Rightarrow> double" where
  "dmul NaN _ = NaN"
| "dmul _ NaN = NaN"
| "dmul (Fin a) (Fin b) = fl (a * b)"
| "dmul (Fin a) PosInf = (if a = 0 then NaN else if 0 < a then PosInf else NegInf)"
| "dmul (Fin a) NegInf = (if a = 0 then NaN else if 0 < a then NegInf else PosInf)"
| "dmul PosInf (Fin b) = (if b = 0 then NaN else if 0 < b then PosInf else NegInf)"
| "dmul NegInf (Fin b) = (if b = 0 then NaN else if 0 < b then NegInf else PosInf)"
| "dmul PosInf PosInf = PosInf"
| "dmul NegInf NegInf = PosInf"
| "dmul PosInf NegInf = NegInf"
| "dmul NegInf PosInf = NegInf"

fun ddiv :: "double \<Rightarrow> double \<Rightarrow> double" where
  "ddiv NaN _ = NaN"
| "ddiv _ NaN = NaN"
| "ddiv (Fin a) (Fin b) =
     (if b = 0 then (if a = 0 then NaN else if 0 < a then PosInf else NegInf)
      else fl (a / b))"
| "ddiv (Fin a) _ = Fin 0"
| "ddiv PosInf (Fin b) = (if 0 \<le> b then PosInf else NegInf)"
| "ddiv NegInf (Fin b) = (if 0 \<le> b then NegInf else PosInf)"
| "ddiv _ _ = NaN"

fun deq :: "double \<Rightarrow> double \<Rightarrow> bool" where
  "deq (Fin a) (Fin b) = (a = b)"
| "deq PosInf PosInf = True"
| "deq NegInf NegInf = True"
| "deq _ _ = False"

fun dgt :: "double \<Rightarrow> double \<Rightarrow> bool" where
  "dgt NaN _ = False"
| "dgt _ NaN = False"
| "dgt (Fin a) (Fin b) = (b < a)"
| "dgt PosInf PosInf = False"
| "dgt PosInf _ = True"
| "dgt _ PosInf = False"
| "dgt NegInf _ = False"
| "dgt _ NegInf = True"

text \<open>
  \<^verbatim>\<open>estimate1RM\<close> as the program computes it: the comparison \<^verbatim>\<open>reps === 1\<close>, and the
  division, the addition and the multiplication of \<^verbatim>\<open>weight * (1 + reps / 30)\<close>, each
  rounded.
\<close>

definition estimate1RM_ieee :: "double \<Rightarrow> double \<Rightarrow> double" where
  "estimate1RM_ieee weight reps =
     (if deq reps (Fin 1) then weight
      else dmul weight (dadd (Fin 1) (ddiv reps (Fin 30))))"

section \<open>The session model (types)\<close>

datatype SetTag = warmup | working | failure | drop | normal

datatype SetStatus = pending | completed | skipped

record WorkoutSet =
  ws_id :: string
  ws_exercise_id :: "string option"
  set_number :: "number option"
  tag :: SetTag
  target_weight :: "number option"
  target_reps :: "number option"
  actual_weight :: "number option"
  actual_reps :: "number option"
  rpe :: "number option"
  status :: SetStatus

text \<open>An entry \<^verbatim>\<open>{ weight?, reps? }\<close> of the previous session's snapshot.\<close>

record PreviousSet =
  weight :: "number option"
  reps :: "number option"

text \<open>The snapshot \<^verbatim>\<open>previous?: { sets?: Array<...> } | null\<close>.\<close>

record Previous =
  prev_sets :: "PreviousSet list option"

text \<open>
  The catalogue entry of an exercise is display data; of its fields the identity and
  the name are kept.
\<close>

record Exercise =
  cat_id :: string
  cat_name :: string

record WorkoutExercise =
  we_id :: string
  exercise_id :: string
  exercise :: "Exercise option"
  ex_notes :: "string option"
  order :: "number option"
  sets :: "WorkoutSet list"
  previous :: "Previous option"

record PREvent =
  pr_exercise_id :: string
  pr_set_id :: string
  estimated_1rm :: number

record ActiveWorkoutSession =
  aws_id :: string
  user_id :: string
  name :: string
  template_id :: "string option"
  started_at :: string
  exercises :: "WorkoutExercise list"
  pr_events :: "PREvent list"

record RestTimer =
  isRunning :: bool
  remaining :: number
  total :: number
  exerciseId :: "string option"

record WorkoutState =
  activeSession :: "ActiveWorkoutSession option"
  elapsedSeconds :: number
  restTimer :: RestTimer
  isFinishing :: bool

section \<open>Timers (the workout store)\<close>

text \<open>
  \<^verbatim>\<open>set(partial)\<close> of the store replaces the fields named in \<^verbatim>\<open>partial\<close> and keeps the
  others: a record update.
\<close>

definition tickElapsed :: "WorkoutState \<Rightarrow> WorkoutState" where
  "tickElapsed s = s\<lparr>elapsedSeconds := elapsedSeconds s + 1\<rparr>"

definition startRestTimer :: "number \<Rightarrow> string option \<Rightarrow> WorkoutState \<Rightarrow> WorkoutState" where
  "startRestTimer seconds exId s =
     s\<lparr>restTimer := \<lparr>isRunning = True, remaining = seconds, total = seconds, exerciseId = exId\<rparr>\<rparr>"

definition stopRestTimer :: "WorkoutState \<Rightarrow> WorkoutState" where
  "stopRestTimer s =
     s\<lparr>restTimer := \<lparr>isRunning = False, remaining = 0, total = 0, exerciseId = None\<rparr>\<rparr>"

definition tickTimer :: "WorkoutState \<Rightarrow> WorkoutState" where
  "tickTimer s =
     (let remaining' = remaining (restTimer s) - 1 in
      if remaining' \<le> 0
      then s\<lparr>restTimer := (restTimer s)\<lparr>isRunning := False, remaining := 0\<rparr>\<rparr>
      else s\<lparr>restTimer := (restTimer s)\<lparr>remaining := remaining'\<rparr>\<rparr>)"

section \<open>Session lifecycle: start\<close>

text \<open>
  Templates, with the fields that \<^verbatim>\<open>buildSessionFromTemplate\<close> reads.
\<close>

record TemplateSet =
  ts_tag :: "SetTag option"
  ts_target_weight :: "number option"
  ts_target_reps :: "number option"

record TemplateExercise =
  te_exercise_id :: string
  te_order :: "number option"
  te_order_index :: "number option"
  te_notes :: "string option"
  te_exercise :: "Exercise option"
  te_sets :: "TemplateSet list"

record Template =
  t_id :: string
  t_name :: string
  t_exercises :: "TemplateExercise list"

text \<open>
  \<^verbatim>\<open>generateId()\<close> returns a fresh random token and \<^verbatim>\<open>new Date().toISOString()\<close> the
  current time. Both are inputs of the model: \<open>gen k\<close> is the token returned by the
  \<open>k\<close>-th call of \<^verbatim>\<open>generateId\<close> made by the operation (counted from 0), and \<open>now\<close> is
  the time stamp. Within one template exercise the identity of the exercise is generated
  first, then one identity for each of its sets; the identity of the session comes last.
\<close>

definition buildSet :: "(nat \<Rightarrow> string) \<Rightarrow> nat \<Rightarrow> TemplateExercise \<Rightarrow> nat \<times> TemplateSet \<Rightarrow> WorkoutSet" where
  "buildSet gen n te = (\<lambda>(idx, ts).
     \<lparr>ws_id = gen (n + idx),
      ws_exercise_id = Some (te_exercise_id te),
      set_number = Some (of_nat idx + 1),
      tag = nullish (ts_tag ts) normal,
      target_weight = ts_target_weight ts,
      target_reps = ts_target_reps ts,
      actual_weight = ts_target_weight ts,
      actual_reps = ts_target_reps ts,
      rpe = None,
      status = pending\<rparr>)"

fun buildExercises :: "(nat \<Rightarrow> string) \<Rightarrow> nat \<Rightarrow> TemplateExercise list \<Rightarrow> WorkoutExercise list \<times> nat" where
  "buildExercises gen n [] = ([], n)"
| "buildExercises gen n (te # tes) =
     (let ex = \<lparr>we_id = gen n,
                exercise_id = te_exercise_id te,
                exercise = te_exercise te,
                ex_notes = te_notes te,
                order = Some (nullish (te_order te) (nullish (te_order_index te) 0)),
                sets = map (buildSet gen (Suc n) te) (enumerate 0 (te_sets te)),
                previous = None\<rparr>
      in case buildExercises gen (Suc n + length (te_sets te)) tes of
           (exs, n') \<Rightarrow> (ex # exs, n'))"

definition buildSessionFromTemplate ::
  "(nat \<Rightarrow> string) \<Rightarrow> string \<Rightarrow> Template \<Rightarrow> string \<Rightarrow> ActiveWorkoutSession" where
  "buildSessionFromTemplate gen now template userId =
     (case buildExercises gen 0 (t_exercises template) of
        (exs, n) \<Rightarrow>
          \<lparr>aws_id = gen n,
           user_id = userId,
           name = t_name template,
           template_id = Some (t_id template),
           started_at = now,
           exercises = exs,
           pr_events = []\<rparr>)"

definition startFromTemplate ::
  "(nat \<Rightarrow> string) \<Rightarrow> string \<Rightarrow> Template \<Rightarrow> string \<Rightarrow> WorkoutState \<Rightarrow> WorkoutState" where
  "startFromTemplate gen now template userId s =
     (let session = buildSessionFromTemplate gen now template userId
      in s\<lparr>activeSession := Some session, elapsedSeconds := 0\<rparr>)"

definition startEmpty ::
  "(nat \<Rightarrow> string) \<Rightarrow> string \<Rightarrow> string \<Rightarrow> string \<Rightarrow> WorkoutState \<Rightarrow> WorkoutState" where
  "startEmpty gen now nm userId s =
     (let session = \<lparr>aws_id = gen 0,
                     user_id = userId,
                     name = nm,
                     template_id = None,
                     started_at = now,
                     exercises = [],
                     pr_events = []\<rparr>
      in s\<lparr>activeSession := Some session, elapsedSeconds := 0\<rparr>)"

text \<open>
  The callers of the two start operations, in the workouts screen. \<open>user\<close> is the signed-in
  user's identity, if any. \<^verbatim>\<open>handleStartEmpty\<close> asks for a name in a dialog; \<open>answer\<close> is the
  trimmed, non-empty name with which the dialog calls back, or \<open>None\<close> when it does not
  call back. Alerts and navigation are not part of the store's state.
  \<^verbatim>\<open>
  const handleStart = async (template: Template) => {
    if (activeSession) { alertDialog(...); return; }
    if (!user) return;
    await startFromTemplate(template, user.id);
    router.push('/workout/session');
  };
  \<close>
\<close>

definition handleStart ::
  "(nat \<Rightarrow> string) \<Rightarrow> string \<Rightarrow> string option \<Rightarrow> Template \<Rightarrow> WorkoutState \<Rightarrow> WorkoutState" where
  "handleStart gen now user template s =
     (if activeSession s \<noteq> None then s
      else case user of
             None \<Rightarrow> s
           | Some uid \<Rightarrow> startFromTemplate gen now template uid s)"

definition handleStartEmpty ::
  "(nat \<Rightarrow> string) \<Rightarrow> string \<Rightarrow> string option \<Rightarrow> string option \<Rightarrow> WorkoutState \<Rightarrow> WorkoutState" where
  "handleStartEmpty gen now user answer s =
     (if activeSession s \<noteq> None then s
      else case user of
             None \<Rightarrow> s
           | Some uid \<Rightarrow>
               (case answer of
                  None \<Rightarrow> s
                | Some nm \<Rightarrow> startEmpty gen now nm uid s))"

definition discardWorkout :: "WorkoutState \<Rightarrow> WorkoutState" where
  "discardWorkout s =
     s\<lparr>activeSession := None,
       elapsedSeconds := 0,
       restTimer := \<lparr>isRunning = False, remaining = 0, total = 0, exerciseId = None\<rparr>\<rparr>"

section \<open>Mutation API\<close>

text \<open>
  Every mutation is \<^verbatim>\<open>set(s => { if (!s.activeSession) return s; return { activeSession:
  { ...s.activeSession, exercises: ... } }; })\<close>: it rewrites the exercise list of the live
  session and does nothing when no session is live.
\<close>

definition onExercises ::
  "(WorkoutExercise list \<Rightarrow> WorkoutExercise list) \<Rightarrow> WorkoutState \<Rightarrow> WorkoutState" where
  "onExercises f s =
     (case activeSession s of
        None \<Rightarrow> s
      | Some session \<Rightarrow> s\<lparr>activeSession := Some (session\<lparr>exercises := f (exercises session)\<rparr>)\<rparr>)"

definition completeSet :: "string \<Rightarrow> string \<Rightarrow> WorkoutState \<Rightarrow> WorkoutState" where
  "completeSet exId setId =
     onExercises (map (\<lambda>ex.
       if we_id ex \<noteq> exId then ex
       else ex\<lparr>sets := map (\<lambda>set. if ws_id set \<noteq> setId then set
                                     else set\<lparr>status := completed\<rparr>) (sets ex)\<rparr>))"

text \<open>
  The payload \<^verbatim>\<open>updates: Partial<WorkoutSet>\<close>: every key may be absent (\<open>None\<close>) or carry a
  value (\<open>Some v\<close>); for a nullable field the value may itself be \<^verbatim>\<open>undefined\<close> or
  \<^verbatim>\<open>null\<close> (\<open>Some None\<close>), which the screen sends when an input is cleared. The spread
  \<^verbatim>\<open>{ ...ws, ...updates }\<close> lets each key that is present replace the set's field.
\<close>

record SetUpdates =
  u_id :: "string option"
  u_exercise_id :: "string option option"
  u_set_number :: "number option option"
  u_tag :: "SetTag option"
  u_target_weight :: "number option option"
  u_target_reps :: "number option option"
  u_actual_weight :: "number option option"
  u_actual_reps :: "number option option"
  u_rpe :: "number option option"
  u_status :: "SetStatus option"

text \<open>The empty payload \<^verbatim>\<open>{}\<close>.\<close>

definition noUpdates :: SetUpdates where
  "noUpdates = \<lparr>u_id = None, u_exercise_id = None, u_set_number = None, u_tag = None,
                 u_target_weight = None, u_target_reps = None, u_actual_weight = None,
                 u_actual_reps = None, u_rpe = None, u_status = None\<rparr>"

definition spread :: "WorkoutSet \<Rightarrow> SetUpdates \<Rightarrow> WorkoutSet" where
  "spread ws updates =
     \<lparr>ws_id = nullish (u_id updates) (ws_id ws),
      ws_exercise_id = nullish (u_exercise_id updates) (ws_exercise_id ws),
      set_number = nullish (u_set_number updates) (set_number ws),
      tag = nullish (u_tag updates) (tag ws),
      target_weight = nullish (u_target_weight updates) (target_weight ws),
      target_reps = nullish (u_target_reps updates) (target_reps ws),
      actual_weight = nullish (u_actual_weight updates) (actual_weight ws),
      actual_reps = nullish (u_actual_reps updates) (actual_reps ws),
      rpe = nullish (u_rpe updates) (rpe ws),
      status = nullish (u_status updates) (status ws)\<rparr>"

definition updateSet :: "string \<Rightarrow> string \<Rightarrow> SetUpdates \<Rightarrow> WorkoutState \<Rightarrow> WorkoutState" where
  "updateSet exId setId updates =
     onExercises (map (\<lambda>ex.
       if we_id ex \<noteq> exId then ex
       else ex\<lparr>sets := map (\<lambda>ws. if ws_id ws \<noteq> setId then ws
                                    else spread ws updates) (sets ex)\<rparr>))"

definition removeSet :: "string \<Rightarrow> string \<Rightarrow> WorkoutState \<Rightarrow> WorkoutState" where
  "removeSet exId setId =
     onExercises (map (\<lambda>ex.
       if we_id ex \<noteq> exId then ex
       else ex\<lparr>sets := filter (\<lambda>ws. ws_id ws \<noteq> setId) (sets ex)\<rparr>))"

definition updateExerciseNotes :: "string \<Rightarrow> string \<Rightarrow> WorkoutState \<Rightarrow> WorkoutState" where
  "updateExerciseNotes exId newNotes =
     onExercises (map (\<lambda>ex.
       if we_id ex \<noteq> exId then ex else ex\<lparr>ex_notes := Some newNotes\<rparr>))"

definition removeExercise :: "string \<Rightarrow> WorkoutState \<Rightarrow> WorkoutState" where
  "removeExercise exId = onExercises (filter (\<lambda>ex. we_id ex \<noteq> exId))"

text \<open>
  \<^verbatim>\<open>addSet\<close> generates one identity for each exercise that matches; \<open>n\<close> counts the calls of
  \<^verbatim>\<open>generateId\<close> made so far. \<^verbatim>\<open>ex.sets[ex.sets.length - 1]\<close> is \<^verbatim>\<open>undefined\<close> on an empty list,
  and \<^verbatim>\<open>lastSet?.f ?? null\<close> is then \<^verbatim>\<open>null\<close>.
\<close>

definition lastSetOf :: "WorkoutExercise \<Rightarrow> WorkoutSet option" where
  "lastSetOf ex = (if sets ex = [] then None else Some (last (sets ex)))"

definition optField :: "WorkoutSet option \<Rightarrow> (WorkoutSet \<Rightarrow> number option) \<Rightarrow> number option" where
  "optField lastSet f = (case lastSet of None \<Rightarrow> None | Some l \<Rightarrow> f l)"

fun addSetLoop :: "(nat \<Rightarrow> string) \<Rightarrow> nat \<Rightarrow> string \<Rightarrow> WorkoutExercise list \<Rightarrow> WorkoutExercise list" where
  "addSetLoop gen n exId [] = []"
| "addSetLoop gen n exId (ex # exs) =
     (if we_id ex \<noteq> exId then ex # addSetLoop gen n exId exs
      else
        (let lastSet = lastSetOf ex;
             newSet = \<lparr>ws_id = gen n,
                       ws_exercise_id = Some (exercise_id ex),
                       set_number = Some (of_nat (length (sets ex)) + 1),
                       tag = normal,
                       target_weight = optField lastSet target_weight,
                       target_reps = optField lastSet target_reps,
                       actual_weight = optField lastSet actual_weight,
                       actual_reps = optField lastSet actual_reps,
                       rpe = None,
                       status = pending\<rparr>
         in ex\<lparr>sets := sets ex @ [newSet]\<rparr> # addSetLoop gen (Suc n) exId exs))"

definition addSet :: "(nat \<Rightarrow> string) \<Rightarrow> string \<Rightarrow> WorkoutState \<Rightarrow> WorkoutState" where
  "addSet gen exId = onExercises (addSetLoop gen 0 exId)"

section \<open>Commit protocol: finishWorkout\<close>

text \<open>
  The storage collaborator is outside the program. Its client reports a failure in the
  \<^verbatim>\<open>error\<close> field of the value it resolves to (\<^verbatim>\<open>const { data, error } = await ...\<close>) and
  returns the stored row in \<^verbatim>\<open>data\<close>. The model records every write that
  \<^verbatim>\<open>finishWorkout\<close> issues, in order, and takes the collaborator's answers as an input:
  the answer to an insert may depend on the row and on all the writes issued before it.
\<close>

record WorkoutRow =
  w_id :: string
  w_user_id :: string
  w_name :: string
  w_template_id :: "string option"
  w_started_at :: string
  finished_at :: string
  duration_seconds :: number
  total_volume_kg :: number

record WorkoutExerciseRow =
  wx_id :: string
  workout_id :: string
  wx_exercise_id :: string
  wx_notes :: "string option"
  wx_order :: number

record WorkoutSetRow =
  wsr_id :: string
  workout_exercise_id :: string
  wsr_set_number :: number
  wsr_tag :: SetTag
  wsr_actual_weight :: "number option"
  wsr_actual_reps :: "number option"
  wsr_rpe :: "number option"

datatype db_write =
    InsertWorkout WorkoutRow
  | InsertWorkoutExercise WorkoutExerciseRow
  | InsertWorkoutSets "WorkoutSetRow list"
  | UpdateTemplateLastUsed string string

datatype db_error = DbError string

record Storage =
  workouts_insert :: "db_write list \<Rightarrow> WorkoutRow \<Rightarrow> db_error + WorkoutRow"
  workout_exercises_insert :: "db_write list \<Rightarrow> WorkoutExerciseRow \<Rightarrow> db_error + WorkoutExerciseRow"

text \<open>What one call of \<^verbatim>\<open>finishWorkout\<close> does: whether it throws (\<open>Inl\<close>) or returns, the
  writes it issued, the store as the call has left it when it starts to wait for the
  storage (\<open>fw_inflight\<close>: the store that any other code sees until the call resumes), and
  the store it leaves at its end.\<close>

record FinishRun =
  fw_result :: "db_error + unit"
  fw_writes :: "db_write list"
  fw_inflight :: WorkoutState
  fw_state :: WorkoutState

definition isCompleted :: "WorkoutSet \<Rightarrow> bool" where
  "isCompleted s = (status s = completed)"

text \<open>\<^verbatim>\<open>activeSession.exercises.filter(ex => ex.sets.some(s => s.status === 'completed'))\<close>\<close>

definition completedExercises :: "ActiveWorkoutSession \<Rightarrow> WorkoutExercise list" where
  "completedExercises session = filter (\<lambda>ex. list_ex isCompleted (sets ex)) (exercises session)"

text \<open>The two nested \<^verbatim>\<open>reduce\<close> calls; \<^verbatim>\<open>xs.reduce(f, 0)\<close> is \<open>foldl f 0 xs\<close>.\<close>

definition totalVolumeKg :: "WorkoutExercise list \<Rightarrow> number" where
  "totalVolumeKg exs =
     foldl (\<lambda>sum ex.
        sum + foldl (\<lambda>s2 set. s2 + nullish (actual_weight set) 0 * nullish (actual_reps set) 0)
                0 (filter isCompleted (sets ex)))
       0 exs"

definition workoutRow :: "ActiveWorkoutSession \<Rightarrow> number \<Rightarrow> string \<Rightarrow> WorkoutRow" where
  "workoutRow session elapsed finishedAt =
     \<lparr>w_id = aws_id session,
      w_user_id = user_id session,
      w_name = name session,
      w_template_id = template_id session,
      w_started_at = started_at session,
      finished_at = finishedAt,
      duration_seconds = elapsed,
      total_volume_kg = totalVolumeKg (completedExercises session)\<rparr>"

definition exerciseRow :: "WorkoutRow \<Rightarrow> WorkoutExercise \<Rightarrow> WorkoutExerciseRow" where
  "exerciseRow workout ex =
     \<lparr>wx_id = we_id ex,
      workout_id = w_id workout,
      wx_exercise_id = exercise_id ex,
      wx_notes = ex_notes ex,
      wx_order = nullish (order ex) 0\<rparr>"

definition setRow :: "WorkoutExerciseRow \<Rightarrow> nat \<times> WorkoutSet \<Rightarrow> WorkoutSetRow" where
  "setRow wEx = (\<lambda>(idx, s).
     \<lparr>wsr_id = ws_id s,
      workout_exercise_id = wx_id wEx,
      wsr_set_number = nullish (set_number s) (of_nat idx + 1),
      wsr_tag = tag s,
      wsr_actual_weight = actual_weight s,
      wsr_actual_reps = actual_reps s,
      wsr_rpe = rpe s\<rparr>)"

text \<open>
  The body of the loop \<^verbatim>\<open>for (const ex of completedExercises)\<close>, on the log of the writes
  issued so far: the exercise header is written; \<^verbatim>\<open>if (exErr) continue;\<close> ends the
  iteration, otherwise the completed sets go out as one batch, whose result is not read.
\<close>

definition persistExercise :: "Storage \<Rightarrow> WorkoutRow \<Rightarrow> db_write list \<Rightarrow> WorkoutExercise \<Rightarrow> db_write list" where
  "persistExercise st workout trace ex =
     (let row = exerciseRow workout ex;
          trace1 = trace @ [InsertWorkoutExercise row]
      in case workout_exercises_insert st trace row of
           Inl exErr \<Rightarrow> trace1
         | Inr wEx \<Rightarrow>
             (let completedSets = filter isCompleted (sets ex)
              in if length completedSets > 0
                 then trace1 @ [InsertWorkoutSets (map (setRow wEx) (enumerate 0 completedSets))]
                 else trace1))"

text \<open>\<^verbatim>\<open>if (activeSession.template_id)\<close>: \<^verbatim>\<open>null\<close>, \<^verbatim>\<open>undefined\<close> and the empty string are falsy.\<close>

definition touchTemplate :: "string option \<Rightarrow> string \<Rightarrow> db_write list \<Rightarrow> db_write list" where
  "touchTemplate tid finishedAt trace =
     (case tid of
        None \<Rightarrow> trace
      | Some t \<Rightarrow> if t = [] then trace else trace @ [UpdateTemplateLastUsed t finishedAt])"

text \<open>
  \<^verbatim>\<open>
  finishWorkout: async () => {
    const { activeSession, elapsedSeconds } = get();
    if (!activeSession) return;
    set({ isFinishing: true });
    try {
      ... insert the workout record ...
      if (wErr) throw wErr;
      for (const ex of completedExercises) { ... }
      if (activeSession.template_id) { ... }
      set({ activeSession: null, elapsedSeconds: 0, isFinishing: false });
    } catch (err) {
      set({ isFinishing: false });
      throw err;
    }
  }
  \<close>
  The store is read once, on entry. The code up to the first \<^verbatim>\<open>await\<close> runs without
  interruption and leaves the store \<open>s\<lparr>isFinishing := True\<rparr>\<close>; the call then waits for the
  storage, and the last \<^verbatim>\<open>set\<close> is applied to that store. A call that finds no session
  returns at once and never waits: its \<open>fw_inflight\<close> is the store it found.
\<close>

definition finishWorkout :: "Storage \<Rightarrow> string \<Rightarrow> WorkoutState \<Rightarrow> FinishRun" where
  "finishWorkout st now s =
     (case activeSession s of
        None \<Rightarrow> \<lparr>fw_result = Inr (), fw_writes = [], fw_inflight = s, fw_state = s\<rparr>
      | Some session \<Rightarrow>
          (let s1 = s\<lparr>isFinishing := True\<rparr>;
               finishedAt = now;
               header = workoutRow session (elapsedSeconds s) finishedAt
           in case workouts_insert st [] header of
                Inl wErr \<Rightarrow>
                  \<lparr>fw_result = Inl wErr,
                   fw_writes = [InsertWorkout header],
                   fw_inflight = s1,
                   fw_state = s1\<lparr>isFinishing := False\<rparr>\<rparr>
              | Inr workout \<Rightarrow>
                  (let trace = foldl (persistExercise st workout) [InsertWorkout header]
                               (completedExercises session)
                   in \<lparr>fw_result = Inr (),
                       fw_writes = touchTemplate (template_id session) finishedAt trace,
                       fw_inflight = s1,
                       fw_state = s1\<lparr>activeSession := None, elapsedSeconds := 0,
                                      isFinishing := False\<rparr>\<rparr>)))"

section \<open>PR evaluation (the session screen)\<close>

text \<open>
  \<^verbatim>\<open>
  {exercise.sets.map((set, idx) => {
    const prevSet = exercise.previous?.sets?.[idx];
    const current1rm = set.actual_weight && set.actual_reps
      ? estimate1RM(set.actual_weight, set.actual_reps) : 0;
    const prev1rm = prevSet?.weight && prevSet?.reps
      ? estimate1RM(prevSet.weight, prevSet.reps) : 0;
    const isPR = current1rm > 0 && current1rm > prev1rm;
    return (<SetRow ... isPR={isPR && set.status === 'completed'} ... />);
  })}
  \<close>
  \<open>guardedEstimate w r\<close> is the conditional \<^verbatim>\<open>w && r ? estimate1RM(w, r) : 0\<close>.
\<close>

definition guardedEstimate :: "number option \<Rightarrow> number option \<Rightarrow> number" where
  "guardedEstimate w r =
     (if truthy w \<and> truthy r then estimate1RM (nullish w 0) (nullish r 0) else 0)"

definition prevSetAt :: "WorkoutExercise \<Rightarrow> nat \<Rightarrow> PreviousSet option" where
  "prevSetAt ex idx =
     (case previous ex of
        None \<Rightarrow> None
      | Some p \<Rightarrow>
          (case prev_sets p of
             None \<Rightarrow> None
           | Some ss \<Rightarrow> if idx < length ss then Some (ss ! idx) else None))"

definition current1rm :: "WorkoutSet \<Rightarrow> number" where
  "current1rm s = guardedEstimate (actual_weight s) (actual_reps s)"

definition prev1rm :: "PreviousSet option \<Rightarrow> number" where
  "prev1rm prevSet =
     (case prevSet of
        None \<Rightarrow> 0
      | Some p \<Rightarrow> guardedEstimate (weight p) (reps p))"

definition isPR :: "WorkoutExercise \<Rightarrow> nat \<times> WorkoutSet \<Rightarrow> bool" where
  "isPR ex = (\<lambda>(idx, set).
     current1rm set > 0 \<and> current1rm set > prev1rm (prevSetAt ex idx))"

text \<open>The \<^verbatim>\<open>isPR\<close> property of each row of an exercise card, in the order of the sets.\<close>

definition rowIsPR :: "WorkoutExercise \<Rightarrow> bool list" where
  "rowIsPR ex = map (\<lambda>(idx, set). isPR ex (idx, set) \<and> status set = completed) (enumerate 0 (sets ex))"

section \<open>The row of a set (the session screen)\<close>

text \<open>
  The session screen shows every set of an exercise as a row with two text inputs and a
  button, and wires them to the store with the identities of the exercise and of the set:
  \<^verbatim>\<open>
  <TextInput onChangeText={v => onUpdate({ actual_weight: v ? parseFloat(v) : undefined })}
             editable={!isCompleted} ... />
  <TextInput onChangeText={v => onUpdate({ actual_reps: v ? parseInt(v, 10) : undefined })}
             editable={!isCompleted} ... />
  <TouchableOpacity onPress={isCompleted ? undefined : onComplete} onLongPress={onDelete} ... />
  \<close>
  where \<^verbatim>\<open>isCompleted\<close> is \<^verbatim>\<open>set.status === 'completed'\<close>, \<^verbatim>\<open>onUpdate\<close> is
  \<^verbatim>\<open>updates => updateSet(ex.id, set.id, updates)\<close>, \<^verbatim>\<open>onDelete\<close> is
  \<^verbatim>\<open>removeSet(ex.id, set.id)\<close> and \<^verbatim>\<open>onComplete\<close> completes the set and starts the rest timer
  (\<^verbatim>\<open>set.actual_weight ? defaultRestSeconds : 60\<close> seconds, for the exercise). An input that
  is not editable takes no text, so its \<^verbatim>\<open>onChangeText\<close> does not run. \<open>row\<close> is the set as
  the row shows it and \<open>v\<close> the number parsed from the text, \<open>None\<close> for the empty text.
\<close>

definition weightEdited ::
  "WorkoutExercise \<Rightarrow> WorkoutSet \<Rightarrow> number option \<Rightarrow> WorkoutState \<Rightarrow> WorkoutState" where
  "weightEdited ex row v s =
     (if status row = completed then s
      else updateSet (we_id ex) (ws_id row) (noUpdates\<lparr>u_actual_weight := Some v\<rparr>) s)"

definition repsEdited ::
  "WorkoutExercise \<Rightarrow> WorkoutSet \<Rightarrow> number option \<Rightarrow> WorkoutState \<Rightarrow> WorkoutState" where
  "repsEdited ex row v s =
     (if status row = completed then s
      else updateSet (we_id ex) (ws_id row) (noUpdates\<lparr>u_actual_reps := Some v\<rparr>) s)"

definition completePressed ::
  "number \<Rightarrow> WorkoutExercise \<Rightarrow> WorkoutSet \<Rightarrow> WorkoutState \<Rightarrow> WorkoutState" where
  "completePressed defaultRestSeconds ex row s =
     (if status row = completed then s
      else startRestTimer (if truthy (actual_weight row) then defaultRestSeconds else 60)
             (Some (we_id ex)) (completeSet (we_id ex) (ws_id row) s))"

definition deleteLongPressed :: "WorkoutExercise \<Rightarrow> WorkoutSet \<Rightarrow> WorkoutState \<Rightarrow> WorkoutState" where
  "deleteLongPressed ex row s = removeSet (we_id ex) (ws_id row) s"

section \<open>Initial store and scenario data\<close>

text \<open>The store as \<^verbatim>\<open>create\<close> builds it.\<close>

definition initialState :: WorkoutState where
  "initialState =
     \<lparr>activeSession = None,
      elapsedSeconds = 0,
      restTimer = \<lparr>isRunning = False, remaining = 0, total = 0, exerciseId = None\<rparr>,
      isFinishing = False\<rparr>"

text \<open>
  Scenario data: a session ``Leg Day'' started empty, to which the screen has added the
  exercise \<open>E\<close> with one pending set of 100 kg for 5 repetitions, and a second exercise
  \<open>F\<close> with a completed set of 60 kg for 8 and a pending set.
\<close>

definition setA :: WorkoutSet where
  "setA = \<lparr>ws_id = ''s1'', ws_exercise_id = Some ''squat'', set_number = Some 1, tag = normal,
            target_weight = None, target_reps = None,
            actual_weight = Some 100, actual_reps = Some 5, rpe = None, status = pending\<rparr>"

definition exerciseE :: WorkoutExercise where
  "exerciseE = \<lparr>we_id = ''e1'', exercise_id = ''squat'', exercise = None, ex_notes = None,
                 order = Some 0, sets = [setA], previous = None\<rparr>"

definition exerciseF :: WorkoutExercise where
  "exerciseF = \<lparr>we_id = ''e2'', exercise_id = ''press'', exercise = None, ex_notes = None,
                 order = Some 1,
                 sets = [setA\<lparr>ws_id := ''s2'', ws_exercise_id := Some ''press'',
                              actual_weight := Some 60, actual_reps := Some 8,
                              status := completed\<rparr>,
                         setA\<lparr>ws_id := ''s3'', ws_exercise_id := Some ''press'',
                              set_number := Some 2, actual_weight := None\<rparr>],
                 previous = None\<rparr>"

text \<open>A supply of identities: the \<open>k\<close>-th token is the prefix followed by \<open>k\<close> marks.\<close>

definition freshId :: "string \<Rightarrow> nat \<Rightarrow> string" where
  "freshId p k = p @ replicate k (CHR ''+'')"

definition legDay :: WorkoutState where
  "legDay = onExercises (\<lambda>_. [exerciseE])
              (startEmpty (freshId ''w1'') ''2024-01-01T10:00:00Z'' ''Leg Day'' ''u1'' initialState)"

definition legDayDone :: WorkoutState where
  "legDayDone = completeSet ''e1'' ''s1'' legDay"

definition twoDone :: WorkoutState where
  "twoDone = onExercises (\<lambda>exs. exs @ [exerciseF]) legDayDone"

text \<open>
  Storage behaviours: one that accepts every write and returns the row, one whose
  \<^verbatim>\<open>workouts\<close> table refuses the insert, and one that refuses the header of the exercise
  with a given identity.
\<close>

definition storageOk :: Storage where
  "storageOk = \<lparr>workouts_insert = (\<lambda>_ row. Inr row),
                 workout_exercises_insert = (\<lambda>_ row. Inr row)\<rparr>"

definition storageDown :: Storage where
  "storageDown = \<lparr>workouts_insert = (\<lambda>_ _. Inl (DbError ''offline'')),
                   workout_exercises_insert = (\<lambda>_ row. Inr row)\<rparr>"

definition storageRefusing :: "string \<Rightarrow> Storage" where
  "storageRefusing x =
     \<lparr>workouts_insert = (\<lambda>_ row. Inr row),
      workout_exercises_insert =
        (\<lambda>_ row. if wx_id row = x then Inl (DbError ''rejected'') else Inr row)\<rparr>"

definition doneSession :: ActiveWorkoutSession where
  "doneSession =
     \<lparr>aws_id = ''w1'', user_id = ''u1'', name = ''Leg Day'', template_id = None,
      started_at = ''2024-01-01T10:00:00Z'',
      exercises = [exerciseE\<lparr>sets := [setA\<lparr>status := completed\<rparr>]\<rparr>],
      pr_events = []\<rparr>"

text \<open>The exercise \<open>E\<close> with its set completed and a previous session of 90 kg for 5.\<close>

definition exerciseB :: WorkoutExercise where
  "exerciseB =
     exerciseE\<lparr>sets := [setA\<lparr>status := completed\<rparr>],
               previous := Some \<lparr>prev_sets = Some [\<lparr>weight = Some 90, reps = Some 5\<rparr>]\<rparr>\<rparr>"

definition pushTemplate :: Template where
  "pushTemplate =
     \<lparr>t_id = ''t1'', t_name = ''Push Day'',
      t_exercises =
        [\<lparr>te_exercise_id = ''bench'', te_order = None, te_order_index = Some 0,
          te_notes = None, te_exercise = None,
          te_sets = [\<lparr>ts_tag = None, ts_target_weight = Some 80, ts_target_reps = Some 5\<rparr>]\<rparr>]\<rparr>"

section \<open>Observations on states and on logs of writes\<close>

text \<open>All the sets of the live session, exercise by exercise; none when no session is live.\<close>

definition allSets :: "WorkoutState \<Rightarrow> WorkoutSet list" where
  "allSets s =
     (case activeSession s of
        None \<Rightarrow> []
      | Some session \<Rightarrow> concat (map sets (exercises session)))"

text \<open>The workout headers and the exercise headers written in a log, in order.\<close>

primrec workoutHeaders :: "db_write list \<Rightarrow> WorkoutRow list" where
  "workoutHeaders [] = []"
| "workoutHeaders (w # ws) =
     (case w of InsertWorkout r \<Rightarrow> r # workoutHeaders ws | _ \<Rightarrow> workoutHeaders ws)"

primrec exerciseHeaders :: "db_write list \<Rightarrow> WorkoutExerciseRow list" where
  "exerciseHeaders [] = []"
| "exerciseHeaders (w # ws) =
     (case w of InsertWorkoutExercise r \<Rightarrow> r # exerciseHeaders ws | _ \<Rightarrow> exerciseHeaders ws)"

text \<open>
  A log skips the sets of failed exercises when no write of an exercise header that the
  storage refused (given the writes before it) is directly followed by a batch of sets.
\<close>

definition skipsFailed :: "Storage \<Rightarrow> db_write list \<Rightarrow> bool" where
  "skipsFailed st trace =
     (\<forall>pre r post. trace = pre @ InsertWorkoutExercise r # post \<longrightarrow>
        isl (workout_exercises_insert st pre r) \<longrightarrow>
        (\<forall>rows post'. post \<noteq> InsertWorkoutSets rows # post'))"

text \<open>The batch of an exercise: the rows of its completed sets, under the stored header.\<close>

definition batchOf :: "WorkoutExerciseRow \<Rightarrow> WorkoutExercise \<Rightarrow> db_write" where
  "batchOf wEx ex =
     InsertWorkoutSets (map (setRow wEx) (enumerate 0 (filter isCompleted (sets ex))))"

text \<open>
  Every batch of sets in a log belongs to one exercise of the list \<open>exs\<close>: it comes directly
  after the header of that exercise, which the storage accepted (given the writes before
  it), and it is the batch of that exercise and of no other. The exercise is the one at
  the position that the header has among the exercise headers of the log.
\<close>

definition batchesOwned :: "Storage \<Rightarrow> WorkoutRow \<Rightarrow> WorkoutExercise list \<Rightarrow> db_write list \<Rightarrow> bool" where
  "batchesOwned st workout exs trace =
     (\<forall>pre rows post. trace = pre @ InsertWorkoutSets rows # post \<longrightarrow>
        (\<exists>pre' wEx.
           length (exerciseHeaders pre') < length exs \<and>
           pre = pre' @ [InsertWorkoutExercise
                          (exerciseRow workout (exs ! length (exerciseHeaders pre')))] \<and>
           workout_exercises_insert st pre'
             (exerciseRow workout (exs ! length (exerciseHeaders pre'))) = Inr wEx \<and>
           InsertWorkoutSets rows = batchOf wEx (exs ! length (exerciseHeaders pre'))))"

text \<open>Every exercise header that the storage accepted is directly followed by the batch of
  its exercise.\<close>

definition batchesSent :: "Storage \<Rightarrow> WorkoutRow \<Rightarrow> WorkoutExercise list \<Rightarrow> db_write list \<Rightarrow> bool" where
  "batchesSent st workout exs trace =
     (\<forall>pre r post wEx. trace = pre @ InsertWorkoutExercise r # post \<longrightarrow>
        workout_exercises_insert st pre r = Inr wEx \<longrightarrow>
        (\<exists>post'. post = batchOf wEx (exs ! length (exerciseHeaders pre)) # post'))"

section \<open>Scoring: estimated one-rep maximum and plates\<close>

lemma findExp_low: "findExp n x = - 1074 \<or> 2 powi (findExp n x + 52) \<le> \<bar>x\<bar>"
  by (induction n) (auto simp add: algebra_simps)

lemma findExp_high: "findExp n x \<le> int n - 1074"
  by (induction n) auto

lemma powi_less_imp_less: "(2::rat) powi a < 2 powi b \<Longrightarrow> a < b"
  using power_int_increasing[of b a "2::rat"] by (cases "a < b") auto

lemma findExp_eq:
  "- 1074 < e \<Longrightarrow> e \<le> int n - 1074 \<Longrightarrow> 2 powi (e + 52) \<le> \<bar>x\<bar> \<Longrightarrow> \<bar>x\<bar> < 2 powi (e + 53) \<Longrightarrow>
   findExp n x = e"
proof (induction n)
  case 0
  then show ?case by simp
next
  case (Suc n)
  show ?case
  proof (cases "2 powi (int n - 1021) \<le> \<bar>x\<bar>")
    case True
    then have "(2::rat) powi (int n - 1021) < 2 powi (e + 53)" using Suc.prems(4) by simp
    then have "int n - 1021 < e + 53" by (rule powi_less_imp_less)
    then show ?thesis using True Suc.prems(2) by simp
  next
    case False
    have "e \<noteq> int n - 1073"
    proof
      assume "e = int n - 1073"
      then have eq: "int n - 1021 = e + 52" by simp
      show False using False Suc.prems(3) unfolding eq by blast
    qed
    then show ?thesis using False Suc by simp
  qed
qed

lemma ulpExp_eq:
  "- 1074 < e \<Longrightarrow> e \<le> 971 \<Longrightarrow> 2 powi (e + 52) \<le> \<bar>x\<bar> \<Longrightarrow> \<bar>x\<bar> < 2 powi (e + 53) \<Longrightarrow> ulpExp x = e"
  unfolding ulpExp_def by (rule findExp_eq) simp_all

lemma findExp_subnormal: "\<bar>x\<bar> < 2 powi (- 1021) \<Longrightarrow> findExp n x = - 1074"
proof (induction n)
  case 0
  then show ?case by simp
next
  case (Suc n)
  have "(2::rat) powi (- 1021) \<le> 2 powi (int n - 1021)"
    by (rule power_int_increasing) simp_all
  then show ?case using Suc by simp
qed

lemma ulpExp_subnormal: "\<bar>x\<bar> < 2 powi (- 1021) \<Longrightarrow> ulpExp x = - 1074"
  unfolding ulpExp_def by (rule findExp_subnormal)

lemma ulpExp_low: "ulpExp x = - 1074 \<or> 2 powi (ulpExp x + 52) \<le> \<bar>x\<bar>"
  unfolding ulpExp_def by (rule findExp_low)

lemma ulpExp_high: "ulpExp x \<le> 971"
  unfolding ulpExp_def using findExp_high[of 2045 x] by simp

lemma roundEven_bounds:
  "y - 1 / 2 \<le> of_int (roundEven y) \<and> of_int (roundEven y) \<le> y + 1 / 2"
proof -
  show ?thesis by (auto simp add: roundEven_def Let_def) linarith+
qed

lemma roundEven_eq: "\<bar>y - of_int m\<bar> < 1 / 2 \<Longrightarrow> roundEven y = m"
proof -
  assume a: "\<bar>y - of_int m\<bar> < 1 / 2"
  show ?thesis
  proof (cases "of_int m \<le> y")
    case True
    then have "\<lfloor>y\<rfloor> = m" using a by (intro floor_unique) auto
    then show ?thesis using a True by (simp add: roundEven_def Let_def)
  next
    case False
    then have "\<lfloor>y\<rfloor> = m - 1" using a by (intro floor_unique) auto
    then show ?thesis using a False by (auto simp add: roundEven_def Let_def)
  qed
qed

lemma roundEven_nonneg: "0 \<le> y \<Longrightarrow> 0 \<le> roundEven y"
  using roundEven_bounds[of y] by (auto simp add: roundEven_def Let_def)


lemma powi_pos: "0 < (2::rat) powi u"
  by simp

lemma fl_lower:
  assumes "0 \<le> x"
  shows "fl x = PosInf \<or> (\<exists>y. fl x = Fin y \<and> x - 2 powi ulpExp x / 2 \<le> y)"
proof -
  let ?u = "ulpExp x"
  let ?m = "roundEven (x / 2 powi ?u)"
  let ?y = "of_int ?m * (2::rat) powi ?u"
  have p: "0 < (2::rat) powi ?u" by simp
  have "0 \<le> x / 2 powi ?u" using assms p by simp
  then have "0 \<le> ?m" by (rule roundEven_nonneg)
  then have nn: "0 \<le> ?y" using p by simp
  have "x / 2 powi ?u - 1 / 2 \<le> of_int ?m" using roundEven_bounds by blast
  then have "(x / 2 powi ?u - 1 / 2) * 2 powi ?u \<le> ?y"
    using p by (intro mult_right_mono) auto
  then have lo: "x - 2 powi ?u / 2 \<le> ?y" using p by (simp add: algebra_simps)
  have "\<not> ?y \<le> - (2 powi 1024)"
  proof
    assume "?y \<le> - (2 powi 1024)"
    moreover have "0 < (2::rat) powi 1024" by simp
    ultimately show False using nn by linarith
  qed
  then show ?thesis using lo by (simp add: fl_def Let_def)
qed

lemma fl_lower_normal:
  assumes "2 powi (- 1022) \<le> x"
  shows "fl x = PosInf \<or> (\<exists>y. fl x = Fin y \<and> x * (1 - 1 / 2 ^ 53) \<le> y)"
proof -
  let ?u = "ulpExp x"
  have x0: "0 < x" using assms powi_pos[of "- 1022"] by linarith
  have "2 powi (?u + 52) \<le> x"
  proof (cases "?u = - 1074")
    case True
    then show ?thesis using assms by simp
  next
    case False
    then show ?thesis using ulpExp_low[of x] x0 by simp
  qed
  moreover have "(2::rat) powi (?u + 52) = 2 powi ?u * 2 ^ 52"
    by (simp add: power_int_add)
  ultimately have "2 powi ?u * 2 ^ 52 \<le> x" by simp
  then have h: "2 powi ?u / 2 \<le> x / 2 ^ 53" by (simp add: field_simps)
  from fl_lower[OF less_imp_le[OF x0]] show ?thesis
  proof
    assume "fl x = PosInf"
    then show ?thesis by simp
  next
    assume "\<exists>y. fl x = Fin y \<and> x - 2 powi ulpExp x / 2 \<le> y"
    then obtain y where y: "fl x = Fin y" "x - 2 powi ?u / 2 \<le> y" by blast
    have "x * (1 - 1 / 2 ^ 53) = x - x / 2 ^ 53" by (simp add: algebra_simps)
    then have "x * (1 - 1 / 2 ^ 53) \<le> y" using y(2) h by linarith
    then show ?thesis using y(1) by simp
  qed
qed


lemma factor_bound:
  assumes "2 \<le> r"
  shows "dadd (Fin 1) (ddiv (Fin r) (Fin 30)) = PosInf \<or>
         (\<exists>f. dadd (Fin 1) (ddiv (Fin r) (Fin 30)) = Fin f \<and> 17 / 16 < f)"
proof -
  have n1: "(2::rat) powi (- 1022) \<le> 1"
    using power_int_increasing[of "- 1022" 0 "2::rat"] by simp
  have n15: "(2::rat) powi (- 1022) \<le> 1 / 15"
  proof -
    have "(2::rat) powi (- 1022) \<le> 2 powi (- 4)" by (rule power_int_increasing) simp_all
    also have "\<dots> \<le> 1 / 15" by (simp add: power_int_minus)
    finally show ?thesis .
  qed
  have "2 powi (- 1022) \<le> r / 30" using n15 assms by simp
  from fl_lower_normal[OF this] show ?thesis
  proof
    assume "fl (r / 30) = PosInf"
    then show ?thesis by simp
  next
    assume "\<exists>y. fl (r / 30) = Fin y \<and> r / 30 * (1 - 1 / 2 ^ 53) \<le> y"
    then obtain q where q: "fl (r / 30) = Fin q" "r / 30 * (1 - 1 / 2 ^ 53) \<le> q" by blast
    have "1 / 15 * (1 - 1 / 2 ^ 53) \<le> r / 30 * (1 - 1 / 2 ^ 53)"
      using assms by (intro mult_right_mono) simp_all
    moreover have "(33::rat) / 512 \<le> 1 / 15 * (1 - 1 / 2 ^ 53)" by simp
    ultimately have ql: "33 / 512 \<le> q" using q(2) by linarith
    then have "2 powi (- 1022) \<le> 1 + q" using n1 by linarith
    from fl_lower_normal[OF this] show ?thesis
    proof
      assume "fl (1 + q) = PosInf"
      then show ?thesis using q(1) by simp
    next
      assume "\<exists>y. fl (1 + q) = Fin y \<and> (1 + q) * (1 - 1 / 2 ^ 53) \<le> y"
      then obtain f where f: "fl (1 + q) = Fin f" "(1 + q) * (1 - 1 / 2 ^ 53) \<le> f" by blast
      have "(1 + 33 / 512) * (1 - 1 / 2 ^ 53) \<le> (1 + q) * (1 - 1 / 2 ^ 53)"
        using ql by (intro mult_right_mono) simp_all
      moreover have "(17::rat) / 16 < (1 + 33 / 512) * (1 - 1 / 2 ^ 53)" by simp
      ultimately have "17 / 16 < f" using f(2) by linarith
      then show ?thesis using q(1) f(1) by simp
    qed
  qed
qed

lemma powi_shift: "(2::rat) powi (- 1071) = 2 powi (- 1074) * 8"
proof -
  have "(2::rat) powi (- 1074 + 3) = 2 powi (- 1074) * 2 powi 3"
    by (intro power_int_add) simp
  moreover have "(- 1074::int) + 3 = - 1071" by simp
  moreover have "(2::rat) powi 3 = 8" by simp
  ultimately show ?thesis by (simp only:)
qed

lemma product_bound:
  assumes a: "2 powi (- 1071) \<le> a" and f: "17 / 16 < f"
  shows "dgt (fl (a * f)) (Fin a)"
proof -
  define t where "t = (2::rat) powi (- 1074)"
  define p where "p = (2::rat) powi ulpExp (a * f)"
  have t0: "0 < t" unfolding t_def by simp
  have a8: "t * 8 \<le> a" using a unfolding powi_shift t_def .
  have a0: "0 < a" using a8 t0 by linarith
  have x0: "0 < a * f" using a0 f by simp
  have g: "a + a / 16 < a * f"
  proof -
    have "a * (17 / 16) < a * f" using a0 f by (intro mult_strict_left_mono) simp_all
    then show ?thesis by (simp add: algebra_simps)
  qed
  from fl_lower[OF less_imp_le[OF x0]] show ?thesis
  proof
    assume "fl (a * f) = PosInf"
    then show ?thesis by simp
  next
    assume "\<exists>y. fl (a * f) = Fin y \<and> a * f - 2 powi ulpExp (a * f) / 2 \<le> y"
    then obtain y where y: "fl (a * f) = Fin y" and yl: "a * f - p / 2 \<le> y"
      unfolding p_def by blast
    have "a < y"
    proof (cases "ulpExp (a * f) = - 1074")
      case True
      then have "p = t" unfolding p_def t_def by (simp only:)
      then show ?thesis using yl g a8 by linarith
    next
      case False
      then have "2 powi (ulpExp (a * f) + 52) \<le> a * f" using ulpExp_low[of "a * f"] x0 by simp
      moreover have "(2::rat) powi (ulpExp (a * f) + 52) = p * 2 powi 52"
        unfolding p_def by (intro power_int_add) simp
      moreover have "(2::rat) powi 52 = 4503599627370496" by simp
      ultimately have "p * 4503599627370496 \<le> a * f" by (simp only:)
      then show ?thesis using yl g a0 by linarith
    qed
    then show ?thesis using y by simp
  qed
qed

lemma fl_eq:
  assumes u: "ulpExp x = u" and m: "\<bar>x / 2 powi u - of_int m\<bar> < 1 / 2"
    and b: "\<bar>of_int m * (2::rat) powi u\<bar> < 2 powi 1024"
  shows "fl x = Fin (of_int m * 2 powi u)"
proof -
  have r: "roundEven (x / 2 powi u) = m" using m by (rule roundEven_eq)
  have "\<not> 2 powi 1024 \<le> of_int m * (2::rat) powi u" using b by linarith
  moreover have "\<not> of_int m * (2::rat) powi u \<le> - (2 powi 1024)" using b by linarith
  ultimately show ?thesis unfolding fl_def u Let_def r by (simp only: if_False)
qed

lemma fl_two_thirtieths: "fl (2 / 30) = Fin (4803839602528529 * 2 powi (- 56))"
proof -
  have u: "ulpExp (2 / 30) = - 56"
    by (rule ulpExp_eq) (simp_all add: power_int_minus)
  have "fl (2 / 30) = Fin (of_int 4803839602528529 * 2 powi (- 56))"
  proof (rule fl_eq[OF u])
    show "\<bar>2 / 30 / 2 powi (- 56) - rat_of_int 4803839602528529\<bar> < 1 / 2"
      by (simp add: power_int_minus)
    have "rat_of_int 4803839602528529 * 2 powi (- 56) < 1" by (simp add: power_int_minus)
    moreover have "(1::rat) \<le> 2 powi 1024" using power_int_increasing[of 0 1024 "2::rat"] by simp
    ultimately show "\<bar>rat_of_int 4803839602528529 * 2 powi (- 56)\<bar> < 2 powi 1024" by simp
  qed
  then show ?thesis by simp
qed

lemma fl_factor_two:
  "fl (1 + 4803839602528529 * 2 powi (- 56)) = Fin (4803839602528529 * 2 powi (- 52))"
proof -
  have u: "ulpExp (1 + 4803839602528529 * 2 powi (- 56)) = - 52"
    by (rule ulpExp_eq) (simp_all add: power_int_minus)
  have "fl (1 + 4803839602528529 * 2 powi (- 56)) = Fin (of_int 4803839602528529 * 2 powi (- 52))"
  proof (rule fl_eq[OF u])
    show "\<bar>(1 + 4803839602528529 * 2 powi (- 56)) / 2 powi (- 52) - rat_of_int 4803839602528529\<bar> < 1 / 2"
      by (simp add: power_int_minus)
    have "rat_of_int 4803839602528529 * 2 powi (- 52) < 2" by (simp add: power_int_minus)
    moreover have "(2::rat) \<le> 2 powi 1024" using power_int_increasing[of 1 1024 "2::rat"] by simp
    ultimately show "\<bar>rat_of_int 4803839602528529 * 2 powi (- 52)\<bar> < 2 powi 1024" by simp
  qed
  then show ?thesis by simp
qed

lemma fl_tiny:
  assumes "1 / 2 < f" and "f < 3 / 2"
  shows "fl (2 powi (- 1074) * f) = Fin (2 powi (- 1074))"
proof -
  define t where "t = (2::rat) powi (- 1074)"
  have t0: "0 < t" unfolding t_def by simp
  have "t * 2 powi 1 = (2::rat) powi (- 1073)"
    unfolding t_def by (simp flip: power_int_add)
  moreover have "(2::rat) powi (- 1073) \<le> 2 powi (- 1021)" by (rule power_int_increasing) simp_all
  ultimately have t2: "t * 2 \<le> 2 powi (- 1021)" by simp
  have "t * f < t * 2" using t0 assms by (intro mult_strict_left_mono) simp_all
  moreover have "0 < t * f" using t0 assms by simp
  ultimately have "\<bar>t * f\<bar> < 2 powi (- 1021)" using t2 by simp
  then have u: "ulpExp (t * f) = - 1074" by (rule ulpExp_subnormal)
  have "fl (t * f) = Fin (of_int 1 * 2 powi (- 1074))"
  proof (rule fl_eq[OF u])
    have "t * f / t = f" using t0 by simp
    moreover have "\<bar>f - 1\<bar> < 1 / 2" using assms by linarith
    ultimately show "\<bar>t * f / 2 powi (- 1074) - rat_of_int 1\<bar> < 1 / 2"
      unfolding t_def by simp
    have "(2::rat) powi (- 1074) \<le> 2 powi 0" by (rule power_int_increasing) simp_all
    moreover have "(2::rat) powi 0 < 2 powi 1024" by (rule power_int_strict_increasing) simp_all
    ultimately show "\<bar>rat_of_int 1 * 2 powi (- 1074)\<bar> < 2 powi 1024" by simp
  qed
  then show ?thesis unfolding t_def by simp
qed

lemma fl_two: "fl 2 = Fin 2"
proof -
  have u: "ulpExp 2 = - 51"
    by (rule ulpExp_eq) (simp_all add: power_int_minus)
  have "fl 2 = Fin (of_int 4503599627370496 * 2 powi (- 51))"
  proof (rule fl_eq[OF u])
    show "\<bar>2 / 2 powi (- 51) - rat_of_int 4503599627370496\<bar> < 1 / 2"
      by (simp add: power_int_minus)
    have "rat_of_int 4503599627370496 * 2 powi (- 51) \<le> 2" by (simp add: power_int_minus)
    moreover have "(2::rat) < 2 powi 1024" using power_int_strict_increasing[of 1 1024 "2::rat"] by simp
    ultimately show "\<bar>rat_of_int 4503599627370496 * 2 powi (- 51)\<bar> < 2 powi 1024" by simp
  qed
  then show ?thesis by (simp add: power_int_minus)
qed

lemma fl_five_thirtieths: "fl (5 / 30) = Fin (6004799503160661 * 2 powi (- 55))"
proof -
  have u: "ulpExp (5 / 30) = - 55"
    by (rule ulpExp_eq) (simp_all add: power_int_minus)
  have "fl (5 / 30) = Fin (of_int 6004799503160661 * 2 powi (- 55))"
  proof (rule fl_eq[OF u])
    show "\<bar>5 / 30 / 2 powi (- 55) - rat_of_int 6004799503160661\<bar> < 1 / 2"
      by (simp add: power_int_minus)
    have "rat_of_int 6004799503160661 * 2 powi (- 55) < 1" by (simp add: power_int_minus)
    moreover have "(1::rat) \<le> 2 powi 1024" using power_int_increasing[of 0 1024 "2::rat"] by simp
    ultimately show "\<bar>rat_of_int 6004799503160661 * 2 powi (- 55)\<bar> < 2 powi 1024" by simp
  qed
  then show ?thesis by simp
qed

lemma fl_factor_five:
  "fl (1 + 6004799503160661 * 2 powi (- 55)) = Fin (5254199565265579 * 2 powi (- 52))"
proof -
  have u: "ulpExp (1 + 6004799503160661 * 2 powi (- 55)) = - 52"
    by (rule ulpExp_eq) (simp_all add: power_int_minus)
  have "fl (1 + 6004799503160661 * 2 powi (- 55)) = Fin (of_int 5254199565265579 * 2 powi (- 52))"
  proof (rule fl_eq[OF u])
    show "\<bar>(1 + 6004799503160661 * 2 powi (- 55)) / 2 powi (- 52) - rat_of_int 5254199565265579\<bar> < 1 / 2"
      by (simp add: power_int_minus)
    have "rat_of_int 5254199565265579 * 2 powi (- 52) < 2" by (simp add: power_int_minus)
    moreover have "(2::rat) \<le> 2 powi 1024" using power_int_increasing[of 1 1024 "2::rat"] by simp
    ultimately show "\<bar>rat_of_int 5254199565265579 * 2 powi (- 52)\<bar> < 2 powi 1024" by simp
  qed
  then show ?thesis by simp
qed

lemma fl_hundred:
  "fl (100 * (5254199565265579 * 2 powi (- 52))) = Fin (8209686820727467 * 2 powi (- 46))"
proof -
  have u: "ulpExp (100 * (5254199565265579 * 2 powi (- 52))) = - 46"
    by (rule ulpExp_eq) (simp_all add: power_int_minus)
  have "fl (100 * (5254199565265579 * 2 powi (- 52))) = Fin (of_int 8209686820727467 * 2 powi (- 46))"
  proof (rule fl_eq[OF u])
    show "\<bar>100 * (5254199565265579 * 2 powi (- 52)) / 2 powi (- 46) - rat_of_int 8209686820727467\<bar> < 1 / 2"
      by (simp add: power_int_minus)
    have "rat_of_int 8209686820727467 * 2 powi (- 46) < 128" by (simp add: power_int_minus)
    moreover have "(128::rat) \<le> 2 powi 1024"
      using power_int_increasing[of 7 1024 "2::rat"] by simp
    ultimately show "\<bar>rat_of_int 8209686820727467 * 2 powi (- 46)\<bar> < 2 powi 1024" by simp
  qed
  then show ?thesis by simp
qed

lemma factor_two: "dadd (Fin 1) (ddiv (Fin 2) (Fin 30)) = Fin (4803839602528529 * 2 powi (- 52))"
  using fl_two_thirtieths fl_factor_two by simp

lemma estimate1RM_ieee_smallest:
  "estimate1RM_ieee (Fin (2 powi (- 1074))) (Fin 2) = Fin (2 powi (- 1074))"
proof -
  have "(1::rat) / 2 < 4803839602528529 * 2 powi (- 52) \<and>
        (4803839602528529::rat) * 2 powi (- 52) < 3 / 2"
    by (simp add: power_int_minus)
  then have "fl (2 powi (- 1074) * (4803839602528529 * 2 powi (- 52))) = Fin (2 powi (- 1074))"
    using fl_tiny by blast
  then show ?thesis
    unfolding estimate1RM_ieee_def factor_two by simp
qed

lemma estimate1RM_ieee_infinity: "estimate1RM_ieee PosInf (Fin 2) = PosInf"
  unfolding estimate1RM_ieee_def factor_two by simp

text \<open>
  Claim C8, as stated, has \<^verbatim>\<open>estimate1RM(w, r) > w\<close> for every weight \<open>w > 0\<close> and every
  integer \<open>r > 1\<close>. The smallest positive double, \<open>2 powi (- 1074)\<close>, is a weight for which
  the rounded product is the weight itself at \<open>r = 2\<close>; and for the weight \<^verbatim>\<open>Infinity\<close> the
  result is \<^verbatim>\<open>Infinity\<close>, which is not greater.
\<close>

theorem estimate1RM_ieee_not_above_weight:
  "(0::rat) < 2 powi (- 1074) \<and> (1::rat) < 2 \<and>
   fl (2 powi (- 1074)) = Fin (2 powi (- 1074)) \<and> fl 2 = Fin 2 \<and>
   estimate1RM_ieee (Fin (2 powi (- 1074))) (Fin 2) = Fin (2 powi (- 1074)) \<and>
   \<not> dgt (estimate1RM_ieee (Fin (2 powi (- 1074))) (Fin 2)) (Fin (2 powi (- 1074))) \<and>
   estimate1RM_ieee PosInf (Fin 2) = PosInf \<and>
   \<not> dgt (estimate1RM_ieee PosInf (Fin 2)) PosInf"
proof -
  have d: "fl (2 powi (- 1074)) = Fin (2 powi (- 1074))"
    using fl_tiny[of 1] by simp
  show ?thesis using d estimate1RM_ieee_smallest estimate1RM_ieee_infinity fl_two by simp
qed

text \<open>
  Claim C8, amended. \<^verbatim>\<open>estimate1RM\<close> is the Epley formula in double arithmetic: it returns
  the weight when \<^verbatim>\<open>reps === 1\<close>, and otherwise the rounded product of the weight and the
  rounded \<^verbatim>\<open>1 + reps / 30\<close>. For one repetition the result is the weight. For every finite
  weight of at least \<open>2 powi (- 1071)\<close> (eight times the smallest positive double) and
  every integer number of repetitions above 1, the result is greater than the weight
  (it may be \<^verbatim>\<open>Infinity\<close>). Below that weight and at \<^verbatim>\<open>Infinity\<close> the result need not be
  greater: for the smallest positive double and for \<^verbatim>\<open>Infinity\<close>, at two repetitions, it
  is the weight.
\<close>

theorem estimate1RM_ieee_epley:
  "estimate1RM_ieee w (Fin 1) = w \<and>
   (\<not> deq r (Fin 1) \<longrightarrow>
      estimate1RM_ieee w r = dmul w (dadd (Fin 1) (ddiv r (Fin 30)))) \<and>
   (2 powi (- 1071) \<le> a \<and> 1 < n \<longrightarrow>
      dgt (estimate1RM_ieee (Fin a) (Fin (of_int n))) (Fin a)) \<and>
   estimate1RM_ieee (Fin (2 powi (- 1074))) (Fin 2) = Fin (2 powi (- 1074)) \<and>
   estimate1RM_ieee PosInf (Fin 2) = PosInf"
proof (intro conjI impI)
  show "estimate1RM_ieee w (Fin 1) = w"
    by (simp add: estimate1RM_ieee_def)
next
  assume "\<not> deq r (Fin 1)"
  then show "estimate1RM_ieee w r = dmul w (dadd (Fin 1) (ddiv r (Fin 30)))"
    by (simp add: estimate1RM_ieee_def)
next
  assume h: "2 powi (- 1071) \<le> a \<and> 1 < n"
  then have a: "2 powi (- 1071) \<le> a" and n: "1 < n" by simp_all
  have n2: "(2::rat) \<le> of_int n" using n by linarith
  have ne: "\<not> deq (Fin (of_int n)) (Fin 1)" using n by simp
  have a0: "0 < a" using a powi_pos[of "- 1071"] by linarith
  from factor_bound[OF n2] show "dgt (estimate1RM_ieee (Fin a) (Fin (of_int n))) (Fin a)"
  proof
    assume "dadd (Fin 1) (ddiv (Fin (of_int n)) (Fin 30)) = PosInf"
    then show ?thesis using ne a0 by (simp add: estimate1RM_ieee_def)
  next
    assume "\<exists>f. dadd (Fin 1) (ddiv (Fin (of_int n)) (Fin 30)) = Fin f \<and> 17 / 16 < f"
    then obtain f where f: "dadd (Fin 1) (ddiv (Fin (of_int n)) (Fin 30)) = Fin f" "17 / 16 < f"
      by blast
    show ?thesis using ne f(1) product_bound[OF a f(2)] by (simp add: estimate1RM_ieee_def)
  qed
next
  show "estimate1RM_ieee (Fin (2 powi (- 1074))) (Fin 2) = Fin (2 powi (- 1074))"
    by (rule estimate1RM_ieee_smallest)
next
  show "estimate1RM_ieee PosInf (Fin 2) = PosInf"
    by (rule estimate1RM_ieee_infinity)
qed

theorem estimate1RM_ieee_epley_witness:
  "(2::rat) powi (- 1071) \<le> 100 \<and> (1::int) < 5 \<and>
   estimate1RM_ieee (Fin 100) (Fin 5) = Fin (8209686820727467 * 2 powi (- 46)) \<and>
   dgt (estimate1RM_ieee (Fin 100) (Fin 5)) (Fin 100) \<and>
   estimate1RM_ieee (Fin 100) (Fin 1) = Fin 100"
proof -
  have s: "(2::rat) powi (- 1071) \<le> 100"
    using power_int_increasing[of "- 1071" 0 "2::rat"] by simp
  have f: "dadd (Fin 1) (ddiv (Fin 5) (Fin 30)) = Fin (5254199565265579 * 2 powi (- 52))"
    using fl_five_thirtieths fl_factor_five by simp
  have e: "estimate1RM_ieee (Fin 100) (Fin 5) = Fin (8209686820727467 * 2 powi (- 46))"
    unfolding estimate1RM_ieee_def f using fl_hundred by simp
  have o: "estimate1RM_ieee (Fin 100) (Fin 1) = Fin 100"
    by (simp add: estimate1RM_ieee_def)
  show ?thesis
    using estimate1RM_ieee_epley[where a = 100 and n = 5 and w = "Fin 100"] s e o by simp
qed

text \<open>
  Claim C9, as stated, expects the per-side selection 20 + 15 + 5 for
  \<^verbatim>\<open>calculatePlates(100, 20)\<close>. The greedy loop starts at the 25 kg plate, which fits
  into the 40 kg to be loaded on a side, so the selection is another one.
\<close>

theorem calculatePlates_100_20_not_20_15_5:
  "perSide (calculatePlates 100 20) \<noteq> [(20, 1), (15, 1), (5, 1)]"
  by code_simp

text \<open>
  Claim C9, amended. \<^verbatim>\<open>calculatePlates(100, 20)\<close> with the standard plates selects, per
  side, one 25 kg plate and one 15 kg plate, which add up to the per-side load of
  (100 - 20) / 2 = 40, and the remainder is 0.
\<close>

theorem calculatePlates_100_20:
  "STANDARD_PLATES_KG = [25, 20, 15, 10, 5, 5 / 2, 5 / 4] \<and>
   calculatePlates 100 20 = \<lparr>perSide = [(25, 1), (15, 1)], remainder = 0\<rparr> \<and>
   sideLoad (perSide (calculatePlates 100 20)) = (100 - 20) / 2 \<and>
   sideLoad (perSide (calculatePlates 100 20)) = 40"
  by code_simp

section \<open>The rest timer\<close>

lemma tickTimer_frame:
  "total (restTimer (tickTimer s)) = total (restTimer s) \<and>
   exerciseId (restTimer (tickTimer s)) = exerciseId (restTimer s)"
  by (simp add: tickTimer_def Let_def)

lemma ticks_frame:
  "total (restTimer ((tickTimer ^^ n) s)) = total (restTimer s) \<and>
   exerciseId (restTimer ((tickTimer ^^ n) s)) = exerciseId (restTimer s)"
  by (induction n) (simp_all add: tickTimer_frame)

lemma tickTimer_last:
  "remaining (restTimer s) \<le> 1 \<Longrightarrow>
   remaining (restTimer (tickTimer s)) = 0 \<and> \<not> isRunning (restTimer (tickTimer s))"
  by (simp add: tickTimer_def Let_def)

lemma tickTimer_running:
  "1 < remaining (restTimer s) \<Longrightarrow>
   remaining (restTimer (tickTimer s)) = remaining (restTimer s) - 1"
  by (simp add: tickTimer_def Let_def)

lemma ticks_stay_done:
  "remaining (restTimer s) = 0 \<Longrightarrow> \<not> isRunning (restTimer s) \<Longrightarrow>
   remaining (restTimer ((tickTimer ^^ n) s)) = 0 \<and> \<not> isRunning (restTimer ((tickTimer ^^ n) s))"
  by (induction n) (simp_all add: tickTimer_def Let_def)

text \<open>A countdown of at most \<open>n\<close> seconds has ended after \<open>n\<close> ticks.\<close>

lemma ticks_done:
  "remaining (restTimer s) \<le> of_nat n \<Longrightarrow> 0 < n \<Longrightarrow>
   remaining (restTimer ((tickTimer ^^ n) s)) = 0 \<and> \<not> isRunning (restTimer ((tickTimer ^^ n) s))"
proof (induction n arbitrary: s)
  case 0
  then show ?case by simp
next
  case (Suc n)
  show ?case
  proof (cases "remaining (restTimer s) \<le> 1")
    case True
    then have d: "remaining (restTimer (tickTimer s)) = 0" "\<not> isRunning (restTimer (tickTimer s))"
      using tickTimer_last by blast+
    have "remaining (restTimer ((tickTimer ^^ n) (tickTimer s))) = 0 \<and>
          \<not> isRunning (restTimer ((tickTimer ^^ n) (tickTimer s)))"
      using ticks_stay_done[of "tickTimer s" n] d by simp
    then show ?thesis by (simp add: funpow_swap1)
  next
    case False
    then have r: "remaining (restTimer (tickTimer s)) = remaining (restTimer s) - 1"
      using tickTimer_running by simp
    from False Suc.prems have "0 < n" by (cases n) auto
    moreover have "remaining (restTimer (tickTimer s)) \<le> of_nat n"
      using r Suc.prems by simp
    ultimately show ?thesis using Suc.IH[of "tickTimer s"] by (simp add: funpow_swap1)
  qed
qed

text \<open>
  Claim C10. A tick at \<open>remaining \<le> 1\<close> stops the timer and sets \<open>remaining\<close> to 0, and it
  keeps \<open>total\<close> and \<open>exerciseId\<close>; \<^verbatim>\<open>stopRestTimer\<close> sets \<open>total\<close> to 0. Hence a countdown
  started with \<open>seconds > 0\<close> and ticked to its end (\<open>n \<ge> seconds\<close> ticks) rests in the state
  with \<open>total = seconds\<close>, which is not the state that an explicit stop produces.
\<close>

theorem tickTimer_completion_keeps_total:
  "(remaining (restTimer s) \<le> 1 \<longrightarrow>
      restTimer (tickTimer s) =
        \<lparr>isRunning = False, remaining = 0,
         total = total (restTimer s), exerciseId = exerciseId (restTimer s)\<rparr>) \<and>
   total (restTimer (stopRestTimer s')) = 0 \<and>
   (0 < seconds \<and> seconds \<le> of_nat n \<longrightarrow>
      restTimer ((tickTimer ^^ n) (startRestTimer seconds exId s0)) =
        \<lparr>isRunning = False, remaining = 0, total = seconds, exerciseId = exId\<rparr> \<and>
      restTimer ((tickTimer ^^ n) (startRestTimer seconds exId s0)) \<noteq> restTimer (stopRestTimer s'))"
proof (intro conjI impI)
  assume "remaining (restTimer s) \<le> 1"
  then show "restTimer (tickTimer s) =
        \<lparr>isRunning = False, remaining = 0,
         total = total (restTimer s), exerciseId = exerciseId (restTimer s)\<rparr>"
    by (simp add: tickTimer_def Let_def)
next
  show "total (restTimer (stopRestTimer s')) = 0"
    by (simp add: stopRestTimer_def)
next
  assume a: "0 < seconds \<and> seconds \<le> of_nat n"
  let ?t = "restTimer ((tickTimer ^^ n) (startRestTimer seconds exId s0))"
  from a have n: "0 < n" by (cases n) auto
  have "remaining (restTimer (startRestTimer seconds exId s0)) \<le> of_nat n"
    using a by (simp add: startRestTimer_def)
  then have d: "remaining ?t = 0 \<and> \<not> isRunning ?t"
    using ticks_done n by blast
  have f: "total ?t = seconds \<and> exerciseId ?t = exId"
    using ticks_frame[of n "startRestTimer seconds exId s0"] by (simp add: startRestTimer_def)
  show e: "?t = \<lparr>isRunning = False, remaining = 0, total = seconds, exerciseId = exId\<rparr>"
    using d f by (cases ?t) simp
  assume a: "0 < seconds \<and> seconds \<le> of_nat n"
  show "?t \<noteq> restTimer (stopRestTimer s')"
    using a e by (simp add: stopRestTimer_def)
qed

theorem tickTimer_completion_witness:
  "restTimer ((tickTimer ^^ 3) (startRestTimer 3 (Some ''e1'') initialState)) =
     \<lparr>isRunning = False, remaining = 0, total = 3, exerciseId = Some ''e1''\<rparr> \<and>
   restTimer (stopRestTimer initialState) =
     \<lparr>isRunning = False, remaining = 0, total = 0, exerciseId = None\<rparr> \<and>
   remaining (restTimer ((tickTimer ^^ 2) (startRestTimer 3 (Some ''e1'') initialState))) = 1 \<and>
   restTimer (tickTimer ((tickTimer ^^ 2) (startRestTimer 3 (Some ''e1'') initialState))) =
     \<lparr>isRunning = False, remaining = 0, total = 3, exerciseId = Some ''e1''\<rparr>"
  using tickTimer_completion_keeps_total
    [where s = "(tickTimer ^^ 2) (startRestTimer 3 (Some ''e1'') initialState)"
       and s' = initialState and seconds = 3 and n = 3 and exId = "Some ''e1''"
       and s0 = initialState]
  by (simp add: numeral_3_eq_3 numeral_2_eq_2 tickTimer_def startRestTimer_def
      stopRestTimer_def initialState_def Let_def)

section \<open>Commit protocol: the header\<close>

lemma foldl_plus_sum_list:
  "foldl (\<lambda>a x. a + f x) a0 xs = a0 + sum_list (map f xs)" for a0 :: rat
  by (induction xs arbitrary: a0) simp_all

lemma totalVolumeKg_sum:
  "totalVolumeKg exs =
     sum_list (map (\<lambda>ex. sum_list (map (\<lambda>s. nullish (actual_weight s) 0 * nullish (actual_reps s) 0)
                                    (filter isCompleted (sets ex)))) exs)"
  by (simp add: totalVolumeKg_def foldl_plus_sum_list)

lemma no_completed_filter: "\<not> list_ex isCompleted xs \<Longrightarrow> filter isCompleted xs = []"
  by (induction xs) auto

text \<open>An exercise without a completed set contributes nothing, so dropping it from the
  sum changes nothing.\<close>

lemma sum_completed_exercises:
  "sum_list (map (\<lambda>ex. sum_list (map f (filter isCompleted (sets ex))))
       (filter (\<lambda>ex. list_ex isCompleted (sets ex)) exs)) =
   sum_list (map f (filter isCompleted (concat (map sets exs))))" for f :: "WorkoutSet \<Rightarrow> rat"
  by (induction exs) (simp_all add: no_completed_filter)

lemma volume_of_session:
  "totalVolumeKg (completedExercises session) =
   sum_list (map (\<lambda>s. nullish (actual_weight s) 0 * nullish (actual_reps s) 0)
     (filter isCompleted (concat (map sets (exercises session)))))"
  by (simp add: totalVolumeKg_sum completedExercises_def sum_completed_exercises)

lemma persistExercise_extends: "\<exists>more. persistExercise st workout trace ex = trace @ more"
  by (simp add: persistExercise_def Let_def split: sum.splits)

lemma loop_extends: "\<exists>more. foldl (persistExercise st workout) trace exs = trace @ more"
proof (induction exs arbitrary: trace)
  case Nil
  then show ?case by simp
next
  case (Cons ex exs)
  obtain m1 where m1: "persistExercise st workout trace ex = trace @ m1"
    using persistExercise_extends by blast
  obtain m2 where "foldl (persistExercise st workout) (trace @ m1) exs = (trace @ m1) @ m2"
    using Cons.IH by blast
  then show ?case using m1 by simp
qed

lemma touchTemplate_extends: "\<exists>more. touchTemplate tid fin trace = trace @ more"
  by (simp add: touchTemplate_def split: option.splits)

text \<open>On a live session the first write is the workout header, whatever the storage
  answers.\<close>

lemma finishWorkout_first_write:
  assumes live: "activeSession s = Some session"
  shows "\<exists>more. fw_writes (finishWorkout st now s) =
           InsertWorkout (workoutRow session (elapsedSeconds s) now) # more"
proof (cases "workouts_insert st [] (workoutRow session (elapsedSeconds s) now)")
  case (Inl e)
  then show ?thesis using live by (simp add: finishWorkout_def Let_def)
next
  case (Inr workout)
  let ?h = "workoutRow session (elapsedSeconds s) now"
  obtain m1 where m1:
    "foldl (persistExercise st workout) [InsertWorkout ?h] (completedExercises session) =
       [InsertWorkout ?h] @ m1"
    using loop_extends by blast
  obtain m2 where m2:
    "touchTemplate (template_id session) now ([InsertWorkout ?h] @ m1) =
       ([InsertWorkout ?h] @ m1) @ m2"
    using touchTemplate_extends by blast
  show ?thesis using live Inr m1 m2 by (simp add: finishWorkout_def Let_def)
qed

lemma legDayDone_live: "activeSession legDayDone = Some doneSession"
  by code_simp

text \<open>
  Claim C6. On a live session the first write of \<^verbatim>\<open>finishWorkout\<close> is the workout header,
  and its \<open>total_volume_kg\<close> is the sum, over all sets of the session whose status is
  \<open>completed\<close>, of \<open>actual_weight * actual_reps\<close>, a missing factor counting as zero. With
  exactly one completed set, of 100 kg for 5 repetitions, the volume is 500.
\<close>

theorem finishWorkout_header_volume:
  assumes live: "activeSession s = Some session"
  shows "\<exists>header more.
           fw_writes (finishWorkout st now s) = InsertWorkout header # more \<and>
           total_volume_kg header =
             (\<Sum>x\<leftarrow>filter (\<lambda>x. status x = completed) (concat (map sets (exercises session))).
                nullish (actual_weight x) 0 * nullish (actual_reps x) 0) \<and>
           (\<forall>x. filter (\<lambda>x. status x = completed) (concat (map sets (exercises session))) = [x] \<and>
                actual_weight x = Some 100 \<and> actual_reps x = Some 5 \<longrightarrow>
                total_volume_kg header = 500)"
proof -
  let ?h = "workoutRow session (elapsedSeconds s) now"
  obtain more where w: "fw_writes (finishWorkout st now s) = InsertWorkout ?h # more"
    using finishWorkout_first_write[OF live] by blast
  have v: "total_volume_kg ?h =
       (\<Sum>x\<leftarrow>filter (\<lambda>x. status x = completed) (concat (map sets (exercises session))).
          nullish (actual_weight x) 0 * nullish (actual_reps x) 0)"
    using volume_of_session[of session] by (simp add: workoutRow_def isCompleted_def[abs_def])
  have "\<forall>x. filter (\<lambda>x. status x = completed) (concat (map sets (exercises session))) = [x] \<and>
                actual_weight x = Some 100 \<and> actual_reps x = Some 5 \<longrightarrow>
                total_volume_kg ?h = 500"
    unfolding v by (simp add: nullish_def)
  with w v show ?thesis by blast
qed

theorem finishWorkout_header_volume_witness:
  "activeSession legDayDone = Some doneSession \<and>
   filter (\<lambda>x. status x = completed) (concat (map sets (exercises doneSession))) =
     [setA\<lparr>status := completed\<rparr>] \<and>
   (\<exists>header more.
      fw_writes (finishWorkout storageOk ''T'' legDayDone) = InsertWorkout header # more \<and>
      total_volume_kg header = 500)"
proof -
  have c: "filter (\<lambda>x. status x = completed) (concat (map sets (exercises doneSession))) =
     [setA\<lparr>status := completed\<rparr>]"
    by code_simp
  have a: "actual_weight (setA\<lparr>status := completed\<rparr>) = Some 100 \<and>
           actual_reps (setA\<lparr>status := completed\<rparr>) = Some 5"
    by (simp add: setA_def)
  show ?thesis
    using finishWorkout_header_volume[OF legDayDone_live, of storageOk "''T''"] legDayDone_live c a
    by blast
qed

text \<open>
  Claim C2. When the insert of the workout record fails, \<^verbatim>\<open>finishWorkout\<close> throws that
  failure, has issued the header write and no other write, leaves \<open>activeSession\<close> as it
  was, and leaves \<open>isFinishing\<close> false.
\<close>

theorem finishWorkout_header_failure:
  "activeSession s = Some session \<Longrightarrow>
   workouts_insert st [] (workoutRow session (elapsedSeconds s) now) = Inl err \<Longrightarrow>
   fw_result (finishWorkout st now s) = Inl err \<and>
   fw_writes (finishWorkout st now s) = [InsertWorkout (workoutRow session (elapsedSeconds s) now)] \<and>
   activeSession (fw_state (finishWorkout st now s)) = Some session \<and>
   isFinishing (fw_state (finishWorkout st now s)) = False \<and>
   fw_state (finishWorkout st now s) = s\<lparr>isFinishing := False\<rparr>"
  by (simp add: finishWorkout_def Let_def)

theorem finishWorkout_header_failure_witness:
  "activeSession legDayDone = Some doneSession \<and>
   workouts_insert storageDown [] (workoutRow doneSession (elapsedSeconds legDayDone) ''T'') =
     Inl (DbError ''offline'') \<and>
   fw_result (finishWorkout storageDown ''T'' legDayDone) = Inl (DbError ''offline'') \<and>
   fw_writes (finishWorkout storageDown ''T'' legDayDone) =
     [InsertWorkout (workoutRow doneSession (elapsedSeconds legDayDone) ''T'')] \<and>
   activeSession (fw_state (finishWorkout storageDown ''T'' legDayDone)) = Some doneSession \<and>
   isFinishing (fw_state (finishWorkout storageDown ''T'' legDayDone)) = False"
proof -
  have d: "workouts_insert storageDown []
             (workoutRow doneSession (elapsedSeconds legDayDone) ''T'') = Inl (DbError ''offline'')"
    by (simp add: storageDown_def)
  show ?thesis
    using finishWorkout_header_failure[OF legDayDone_live d] legDayDone_live d by simp
qed

section \<open>Commit protocol: exercises and sets\<close>

lemma exerciseHeaders_append:
  "exerciseHeaders (xs @ ys) = exerciseHeaders xs @ exerciseHeaders ys"
  by (induction xs) (simp_all split: db_write.splits)

lemma persistExercise_headers:
  "exerciseHeaders (persistExercise st workout trace ex) =
   exerciseHeaders trace @ [exerciseRow workout ex]"
  by (simp add: persistExercise_def Let_def exerciseHeaders_append split: sum.splits)

lemma loop_headers:
  "exerciseHeaders (foldl (persistExercise st workout) trace exs) =
   exerciseHeaders trace @ map (exerciseRow workout) exs"
  by (induction exs arbitrary: trace) (simp_all add: persistExercise_headers)

lemma touchTemplate_headers:
  "exerciseHeaders (touchTemplate tid fin trace) = exerciseHeaders trace"
  by (simp add: touchTemplate_def exerciseHeaders_append split: option.splits)

lemma snoc_eq_append_Cons:
  assumes "xs @ [x] = pre @ y # post" and "post \<noteq> []"
  shows "\<exists>post1. post = post1 @ [x] \<and> xs = pre @ y # post1"
proof -
  from assms(2) have p: "post = butlast post @ [last post]" by simp
  then have "xs @ [x] = (pre @ y # butlast post) @ [last post]"
    using assms(1) by (metis append_Cons append_assoc)
  then have "xs = pre @ y # butlast post \<and> x = last post" by simp
  with p show ?thesis by metis
qed

text \<open>Appending a write that is not a batch of sets keeps the property.\<close>

lemma skipsFailed_snoc_other:
  assumes inv: "skipsFailed st trace" and nb: "\<forall>rows. w \<noteq> InsertWorkoutSets rows"
  shows "skipsFailed st (trace @ [w])"
  unfolding skipsFailed_def
proof (intro allI impI)
  fix pre r post rows post'
  assume eq: "trace @ [w] = pre @ InsertWorkoutExercise r # post"
    and f: "isl (workout_exercises_insert st pre r)"
  show "post \<noteq> InsertWorkoutSets rows # post'"
  proof (cases "post = []")
    case True
    then show ?thesis by simp
  next
    case False
    then obtain post1 where p: "post = post1 @ [w]"
      and t: "trace = pre @ InsertWorkoutExercise r # post1"
      using snoc_eq_append_Cons[OF eq] by blast
    from inv t f have "\<forall>rows post'. post1 \<noteq> InsertWorkoutSets rows # post'"
      unfolding skipsFailed_def by blast
    then show ?thesis using p nb by (cases post1) auto
  qed
qed

text \<open>Appending an exercise header that the storage accepts, and then its batch, keeps it.\<close>

lemma skipsFailed_snoc_batch:
  assumes inv: "skipsFailed st trace" and ok: "\<not> isl (workout_exercises_insert st trace r0)"
  shows "skipsFailed st (trace @ [InsertWorkoutExercise r0, InsertWorkoutSets rows0])"
  unfolding skipsFailed_def
proof (intro allI impI)
  fix pre r post rows post'
  assume eq: "trace @ [InsertWorkoutExercise r0, InsertWorkoutSets rows0] =
                pre @ InsertWorkoutExercise r # post"
    and f: "isl (workout_exercises_insert st pre r)"
  have eq': "(trace @ [InsertWorkoutExercise r0]) @ [InsertWorkoutSets rows0] =
               pre @ InsertWorkoutExercise r # post"
    using eq by simp
  show "post \<noteq> InsertWorkoutSets rows # post'"
  proof (cases "post = []")
    case True
    then show ?thesis by simp
  next
    case False
    then obtain post1 where p: "post = post1 @ [InsertWorkoutSets rows0]"
      and t: "trace @ [InsertWorkoutExercise r0] = pre @ InsertWorkoutExercise r # post1"
      using snoc_eq_append_Cons[OF eq'] by blast
    show ?thesis
    proof (cases "post1 = []")
      case True
      with t have "pre = trace \<and> r = r0" by simp
      with f ok show ?thesis by simp
    next
      case False
      then obtain post2 where p2: "post1 = post2 @ [InsertWorkoutExercise r0]"
        and t2: "trace = pre @ InsertWorkoutExercise r # post2"
        using snoc_eq_append_Cons[OF t] by blast
      from inv t2 f have "\<forall>rows post'. post2 \<noteq> InsertWorkoutSets rows # post'"
        unfolding skipsFailed_def by blast
      then show ?thesis using p p2 by (cases post2) auto
    qed
  qed
qed

lemma persistExercise_skipsFailed:
  assumes inv: "skipsFailed st trace"
  shows "skipsFailed st (persistExercise st workout trace ex)"
proof (cases "workout_exercises_insert st trace (exerciseRow workout ex)")
  case (Inl e)
  then show ?thesis
    using skipsFailed_snoc_other[OF inv, of "InsertWorkoutExercise (exerciseRow workout ex)"]
    by (simp add: persistExercise_def Let_def)
next
  case (Inr wEx)
  then have ok: "\<not> isl (workout_exercises_insert st trace (exerciseRow workout ex))" by simp
  show ?thesis
    using Inr skipsFailed_snoc_other[OF inv, of "InsertWorkoutExercise (exerciseRow workout ex)"]
      skipsFailed_snoc_batch[OF inv ok]
    by (simp add: persistExercise_def Let_def)
qed

lemma loop_skipsFailed:
  "skipsFailed st trace \<Longrightarrow> skipsFailed st (foldl (persistExercise st workout) trace exs)"
  by (induction exs arbitrary: trace) (simp_all add: persistExercise_skipsFailed)

lemma touchTemplate_skipsFailed:
  "skipsFailed st trace \<Longrightarrow> skipsFailed st (touchTemplate tid fin trace)"
  by (simp add: touchTemplate_def skipsFailed_snoc_other split: option.splits)

lemma header_skipsFailed: "skipsFailed st [InsertWorkout h]"
  by (simp add: skipsFailed_def Cons_eq_append_conv)

lemma twoDone_live:
  "activeSession twoDone = Some (doneSession\<lparr>exercises := exercises doneSession @ [exerciseF]\<rparr>)"
  by code_simp

lemma snoc_eq_append_Cons_cases:
  assumes "xs @ [x] = pre @ y # post"
  shows "(post = [] \<and> xs = pre \<and> x = y) \<or> (\<exists>post1. post = post1 @ [x] \<and> xs = pre @ y # post1)"
proof (cases "post = []")
  case True
  then show ?thesis using assms by simp
next
  case False
  then show ?thesis using snoc_eq_append_Cons[OF assms] by blast
qed

lemma batchesOwned_snoc_other:
  assumes inv: "batchesOwned st workout exs trace" and nb: "\<forall>rows. w \<noteq> InsertWorkoutSets rows"
  shows "batchesOwned st workout (exs @ exs') (trace @ [w])"
  unfolding batchesOwned_def
proof (intro allI impI)
  fix pre rows post
  assume eq: "trace @ [w] = pre @ InsertWorkoutSets rows # post"
  from snoc_eq_append_Cons_cases[OF eq] nb obtain post1 where
    t: "trace = pre @ InsertWorkoutSets rows # post1" by blast
  from inv t obtain pre' wEx where
    h: "length (exerciseHeaders pre') < length exs"
       "pre = pre' @ [InsertWorkoutExercise (exerciseRow workout (exs ! length (exerciseHeaders pre')))]"
       "workout_exercises_insert st pre' (exerciseRow workout (exs ! length (exerciseHeaders pre'))) = Inr wEx"
       "InsertWorkoutSets rows = batchOf wEx (exs ! length (exerciseHeaders pre'))"
    unfolding batchesOwned_def by blast
  have n: "(exs @ exs') ! length (exerciseHeaders pre') = exs ! length (exerciseHeaders pre')"
    using h(1) by (simp add: nth_append)
  show "\<exists>pre' wEx.
           length (exerciseHeaders pre') < length (exs @ exs') \<and>
           pre = pre' @ [InsertWorkoutExercise (exerciseRow workout ((exs @ exs') ! length (exerciseHeaders pre')))] \<and>
           workout_exercises_insert st pre' (exerciseRow workout ((exs @ exs') ! length (exerciseHeaders pre'))) = Inr wEx \<and>
           InsertWorkoutSets rows = batchOf wEx ((exs @ exs') ! length (exerciseHeaders pre'))"
    using h n by (intro exI[of _ pre'] exI[of _ wEx]) simp
qed

lemma batchesOwned_snoc_batch:
  assumes inv: "batchesOwned st workout exs trace"
    and hs: "length (exerciseHeaders trace) = length exs"
    and ok: "workout_exercises_insert st trace (exerciseRow workout ex) = Inr wEx"
  shows "batchesOwned st workout (exs @ [ex])
           (trace @ [InsertWorkoutExercise (exerciseRow workout ex), batchOf wEx ex])"
  unfolding batchesOwned_def
proof (intro allI impI)
  fix pre rows post
  assume eq: "trace @ [InsertWorkoutExercise (exerciseRow workout ex), batchOf wEx ex] =
                pre @ InsertWorkoutSets rows # post"
  then have eq': "(trace @ [InsertWorkoutExercise (exerciseRow workout ex)]) @ [batchOf wEx ex] =
                pre @ InsertWorkoutSets rows # post" by simp
  let ?goal = "\<exists>pre' wEx.
           length (exerciseHeaders pre') < length (exs @ [ex]) \<and>
           pre = pre' @ [InsertWorkoutExercise (exerciseRow workout ((exs @ [ex]) ! length (exerciseHeaders pre')))] \<and>
           workout_exercises_insert st pre' (exerciseRow workout ((exs @ [ex]) ! length (exerciseHeaders pre'))) = Inr wEx \<and>
           InsertWorkoutSets rows = batchOf wEx ((exs @ [ex]) ! length (exerciseHeaders pre'))"
  from snoc_eq_append_Cons_cases[OF eq'] show ?goal
  proof
    assume last: "post = [] \<and> trace @ [InsertWorkoutExercise (exerciseRow workout ex)] = pre \<and>
                  batchOf wEx ex = InsertWorkoutSets rows"
    have n: "(exs @ [ex]) ! length (exerciseHeaders trace) = ex" using hs by simp
    show ?goal using last hs ok n by (intro exI[of _ trace] exI[of _ wEx]) simp
  next
    assume "\<exists>post1. post = post1 @ [batchOf wEx ex] \<and>
              trace @ [InsertWorkoutExercise (exerciseRow workout ex)] = pre @ InsertWorkoutSets rows # post1"
    then obtain post1 where
      t: "trace @ [InsertWorkoutExercise (exerciseRow workout ex)] = pre @ InsertWorkoutSets rows # post1"
      by blast
    have "batchesOwned st workout (exs @ [ex]) (trace @ [InsertWorkoutExercise (exerciseRow workout ex)])"
      by (rule batchesOwned_snoc_other[OF inv]) simp
    then show ?goal using t unfolding batchesOwned_def by blast
  qed
qed

lemma persistExercise_cases:
  "(isl (workout_exercises_insert st trace (exerciseRow workout ex)) \<or> filter isCompleted (sets ex) = []) \<and>
     persistExercise st workout trace ex = trace @ [InsertWorkoutExercise (exerciseRow workout ex)]
   \<or> (\<exists>wEx. workout_exercises_insert st trace (exerciseRow workout ex) = Inr wEx \<and>
        persistExercise st workout trace ex =
          trace @ [InsertWorkoutExercise (exerciseRow workout ex), batchOf wEx ex])"
  by (cases "workout_exercises_insert st trace (exerciseRow workout ex)")
     (auto simp add: persistExercise_def Let_def batchOf_def)

lemma persistExercise_batchesOwned:
  assumes inv: "batchesOwned st workout exs trace"
    and hs: "length (exerciseHeaders trace) = length exs"
  shows "batchesOwned st workout (exs @ [ex]) (persistExercise st workout trace ex)"
  using persistExercise_cases[of st trace workout ex]
    batchesOwned_snoc_other[OF inv, of "InsertWorkoutExercise (exerciseRow workout ex)" "[ex]"]
    batchesOwned_snoc_batch[OF inv hs]
  by auto

lemma loop_batchesOwned:
  "batchesOwned st workout seen trace \<Longrightarrow> length (exerciseHeaders trace) = length seen \<Longrightarrow>
   batchesOwned st workout (seen @ exs) (foldl (persistExercise st workout) trace exs)"
proof (induction exs arbitrary: seen trace)
  case Nil
  then show ?case by simp
next
  case (Cons ex exs)
  have 1: "batchesOwned st workout (seen @ [ex]) (persistExercise st workout trace ex)"
    using persistExercise_batchesOwned[OF Cons.prems] .
  have 2: "length (exerciseHeaders (persistExercise st workout trace ex)) = length (seen @ [ex])"
    using Cons.prems(2) by (simp add: persistExercise_headers)
  show ?case using Cons.IH[OF 1 2] by simp
qed


lemma header_position:
  assumes "trace = pre @ InsertWorkoutExercise r # post"
  shows "length (exerciseHeaders pre) < length (exerciseHeaders trace)"
  using assms by (simp add: exerciseHeaders_append)

lemma batchesSent_old:
  assumes inv: "batchesSent st workout exs trace"
    and hs: "length (exerciseHeaders trace) = length exs"
    and t: "trace = pre @ InsertWorkoutExercise r # post1"
    and ok: "workout_exercises_insert st pre r = Inr wEx"
  shows "\<exists>post'. post1 @ ws = batchOf wEx ((exs @ exs') ! length (exerciseHeaders pre)) # post'"
proof -
  from inv t ok obtain p where p: "post1 = batchOf wEx (exs ! length (exerciseHeaders pre)) # p"
    unfolding batchesSent_def by blast
  have "length (exerciseHeaders pre) < length exs"
    using header_position[OF t] hs by simp
  then have "(exs @ exs') ! length (exerciseHeaders pre) = exs ! length (exerciseHeaders pre)"
    by (simp add: nth_append)
  then show ?thesis using p by simp
qed

lemma batchesSent_refused:
  assumes inv: "batchesSent st workout exs trace"
    and hs: "length (exerciseHeaders trace) = length exs"
    and no: "isl (workout_exercises_insert st trace (exerciseRow workout ex))"
  shows "batchesSent st workout (exs @ [ex]) (trace @ [InsertWorkoutExercise (exerciseRow workout ex)])"
  unfolding batchesSent_def
proof (intro allI impI)
  fix pre r post wEx
  assume eq: "trace @ [InsertWorkoutExercise (exerciseRow workout ex)] = pre @ InsertWorkoutExercise r # post"
    and ok: "workout_exercises_insert st pre r = Inr wEx"
  let ?goal = "\<exists>post'. post = batchOf wEx ((exs @ [ex]) ! length (exerciseHeaders pre)) # post'"
  from snoc_eq_append_Cons_cases[OF eq] show ?goal
  proof
    assume "post = [] \<and> trace = pre \<and> InsertWorkoutExercise (exerciseRow workout ex) = InsertWorkoutExercise r"
    then show ?goal using no ok by simp
  next
    assume "\<exists>post1. post = post1 @ [InsertWorkoutExercise (exerciseRow workout ex)] \<and>
              trace = pre @ InsertWorkoutExercise r # post1"
    then obtain post1 where p: "post = post1 @ [InsertWorkoutExercise (exerciseRow workout ex)]"
      and t: "trace = pre @ InsertWorkoutExercise r # post1" by blast
    show ?goal using batchesSent_old[OF inv hs t ok] p by simp
  qed
qed

lemma batchesSent_accepted:
  assumes inv: "batchesSent st workout exs trace"
    and hs: "length (exerciseHeaders trace) = length exs"
    and acc: "workout_exercises_insert st trace (exerciseRow workout ex) = Inr wEx0"
  shows "batchesSent st workout (exs @ [ex])
           (trace @ [InsertWorkoutExercise (exerciseRow workout ex), batchOf wEx0 ex])"
  unfolding batchesSent_def
proof (intro allI impI)
  fix pre r post wEx
  assume eq: "trace @ [InsertWorkoutExercise (exerciseRow workout ex), batchOf wEx0 ex] =
                pre @ InsertWorkoutExercise r # post"
    and ok: "workout_exercises_insert st pre r = Inr wEx"
  then have eq': "(trace @ [InsertWorkoutExercise (exerciseRow workout ex)]) @ [batchOf wEx0 ex] =
                pre @ InsertWorkoutExercise r # post" by simp
  let ?goal = "\<exists>post'. post = batchOf wEx ((exs @ [ex]) ! length (exerciseHeaders pre)) # post'"
  from snoc_eq_append_Cons_cases[OF eq'] show ?goal
  proof
    assume "post = [] \<and> trace @ [InsertWorkoutExercise (exerciseRow workout ex)] = pre \<and>
            batchOf wEx0 ex = InsertWorkoutExercise r"
    then show ?goal by (simp add: batchOf_def)
  next
    assume "\<exists>post1. post = post1 @ [batchOf wEx0 ex] \<and>
              trace @ [InsertWorkoutExercise (exerciseRow workout ex)] = pre @ InsertWorkoutExercise r # post1"
    then obtain post1 where p: "post = post1 @ [batchOf wEx0 ex]"
      and t1: "trace @ [InsertWorkoutExercise (exerciseRow workout ex)] = pre @ InsertWorkoutExercise r # post1"
      by blast
    from snoc_eq_append_Cons_cases[OF t1] show ?goal
    proof
      assume l: "post1 = [] \<and> trace = pre \<and>
              InsertWorkoutExercise (exerciseRow workout ex) = InsertWorkoutExercise r"
      then have "wEx = wEx0" using acc ok by simp
      moreover have "(exs @ [ex]) ! length (exerciseHeaders pre) = ex" using l hs by simp
      ultimately show ?goal using p l by simp
    next
      assume "\<exists>post2. post1 = post2 @ [InsertWorkoutExercise (exerciseRow workout ex)] \<and>
                trace = pre @ InsertWorkoutExercise r # post2"
      then obtain post2 where p2: "post1 = post2 @ [InsertWorkoutExercise (exerciseRow workout ex)]"
        and t: "trace = pre @ InsertWorkoutExercise r # post2" by blast
      show ?goal
        using batchesSent_old[OF inv hs t ok, of "[InsertWorkoutExercise (exerciseRow workout ex), batchOf wEx0 ex]" "[ex]"]
          p p2 by simp
    qed
  qed
qed

lemma persistExercise_batchesSent:
  assumes inv: "batchesSent st workout exs trace"
    and hs: "length (exerciseHeaders trace) = length exs"
    and c: "filter isCompleted (sets ex) \<noteq> []"
  shows "batchesSent st workout (exs @ [ex]) (persistExercise st workout trace ex)"
  using persistExercise_cases[of st trace workout ex] c
    batchesSent_refused[OF inv hs] batchesSent_accepted[OF inv hs]
  by auto

lemma loop_batchesSent:
  "batchesSent st workout seen trace \<Longrightarrow> length (exerciseHeaders trace) = length seen \<Longrightarrow>
   \<forall>ex \<in> set exs. filter isCompleted (sets ex) \<noteq> [] \<Longrightarrow>
   batchesSent st workout (seen @ exs) (foldl (persistExercise st workout) trace exs)"
proof (induction exs arbitrary: seen trace)
  case Nil
  then show ?case by simp
next
  case (Cons ex exs)
  have c: "filter isCompleted (sets ex) \<noteq> []" using Cons.prems(3) by simp
  have 1: "batchesSent st workout (seen @ [ex]) (persistExercise st workout trace ex)"
    using persistExercise_batchesSent[OF Cons.prems(1,2) c] .
  have 2: "length (exerciseHeaders (persistExercise st workout trace ex)) = length (seen @ [ex])"
    using Cons.prems(2) by (simp add: persistExercise_headers)
  have 3: "\<forall>ex \<in> set exs. filter isCompleted (sets ex) \<noteq> []" using Cons.prems(3) by simp
  show ?case using Cons.IH[OF 1 2 3] by simp
qed

lemma completedExercises_have_sets:
  "\<forall>ex \<in> set (completedExercises session). filter isCompleted (sets ex) \<noteq> []"
  by (auto simp add: completedExercises_def list_ex_iff filter_empty_conv)

lemma touchTemplate_batchesOwned:
  "batchesOwned st workout exs trace \<Longrightarrow> batchesOwned st workout exs (touchTemplate tid fin trace)"
  using batchesOwned_snoc_other[of st workout exs trace _ "[]"]
  by (simp add: touchTemplate_def split: option.splits)

lemma touchTemplate_batchesSent:
  assumes inv: "batchesSent st workout exs trace"
    and hs: "length (exerciseHeaders trace) = length exs"
  shows "batchesSent st workout exs (touchTemplate tid fin trace)"
proof (cases "touchTemplate tid fin trace = trace")
  case True
  then show ?thesis using inv by simp
next
  case False
  then obtain t where tt: "touchTemplate tid fin trace = trace @ [UpdateTemplateLastUsed t fin]"
    by (auto simp add: touchTemplate_def split: option.splits if_splits)
  show ?thesis unfolding tt batchesSent_def
  proof (intro allI impI)
    fix pre r post wEx
    assume eq: "trace @ [UpdateTemplateLastUsed t fin] = pre @ InsertWorkoutExercise r # post"
      and ok: "workout_exercises_insert st pre r = Inr wEx"
    from snoc_eq_append_Cons_cases[OF eq] obtain post1 where
      p: "post = post1 @ [UpdateTemplateLastUsed t fin]" and t: "trace = pre @ InsertWorkoutExercise r # post1"
      by auto
    show "\<exists>post'. post = batchOf wEx (exs ! length (exerciseHeaders pre)) # post'"
      using batchesSent_old[OF inv hs t ok, of "[UpdateTemplateLastUsed t fin]" "[]"] p by simp
  qed
qed

lemma header_batchesOwned: "batchesOwned st workout [] [InsertWorkout h]"
  by (simp add: batchesOwned_def Cons_eq_append_conv)

lemma header_batchesSent: "batchesSent st workout [] [InsertWorkout h]"
  by (simp add: batchesSent_def Cons_eq_append_conv)

text \<open>
  Claim C3. Once the workout header is stored, \<^verbatim>\<open>finishWorkout\<close> returns without throwing
  and clears the live session, whatever the storage answers to the exercise headers. The
  header of every exercise with a completed set is written, in order, also after a
  failure. A header write that fails is never followed by a batch of sets. Every batch of
  sets in the log comes directly after the header of its exercise, which the storage
  accepted, and holds the completed sets of that exercise and nothing else: the sets of
  an exercise whose header failed are in no write. Every accepted header is followed by
  the batch of its exercise.
\<close>

theorem finishWorkout_absorbs_exercise_failure:
  assumes live: "activeSession s = Some session"
    and hdr: "workouts_insert st [] (workoutRow session (elapsedSeconds s) now) = Inr workout"
  shows "fw_result (finishWorkout st now s) = Inr () \<and>
         activeSession (fw_state (finishWorkout st now s)) = None \<and>
         isFinishing (fw_state (finishWorkout st now s)) = False \<and>
         exerciseHeaders (fw_writes (finishWorkout st now s)) =
           map (exerciseRow workout) (completedExercises session) \<and>
         (\<forall>pre r post.
            fw_writes (finishWorkout st now s) = pre @ InsertWorkoutExercise r # post \<longrightarrow>
            isl (workout_exercises_insert st pre r) \<longrightarrow>
            (\<forall>rows post'. post \<noteq> InsertWorkoutSets rows # post')) \<and>
         (\<forall>pre rows post.
            fw_writes (finishWorkout st now s) = pre @ InsertWorkoutSets rows # post \<longrightarrow>
            (\<exists>pre' wEx.
               length (exerciseHeaders pre') < length (completedExercises session) \<and>
               pre = pre' @ [InsertWorkoutExercise
                 (exerciseRow workout (completedExercises session ! length (exerciseHeaders pre')))] \<and>
               workout_exercises_insert st pre'
                 (exerciseRow workout (completedExercises session ! length (exerciseHeaders pre'))) =
                 Inr wEx \<and>
               rows = map (setRow wEx) (enumerate 0 (filter (\<lambda>x. status x = completed)
                        (sets (completedExercises session ! length (exerciseHeaders pre'))))))) \<and>
         (\<forall>pre r post wEx.
            fw_writes (finishWorkout st now s) = pre @ InsertWorkoutExercise r # post \<longrightarrow>
            workout_exercises_insert st pre r = Inr wEx \<longrightarrow>
            (\<exists>post'. post =
               InsertWorkoutSets (map (setRow wEx) (enumerate 0 (filter (\<lambda>x. status x = completed)
                 (sets (completedExercises session ! length (exerciseHeaders pre)))))) # post'))"
proof -
  let ?h = "workoutRow session (elapsedSeconds s) now"
  let ?loop = "foldl (persistExercise st workout) [InsertWorkout ?h] (completedExercises session)"
  have w: "fw_writes (finishWorkout st now s) = touchTemplate (template_id session) now ?loop"
    using live hdr by (simp add: finishWorkout_def Let_def)
  have "skipsFailed st (touchTemplate (template_id session) now ?loop)"
    by (intro touchTemplate_skipsFailed loop_skipsFailed header_skipsFailed)
  then have sk: "skipsFailed st (fw_writes (finishWorkout st now s))"
    using w by simp
  have hs: "exerciseHeaders (fw_writes (finishWorkout st now s)) =
              map (exerciseRow workout) (completedExercises session)"
    using w by (simp add: touchTemplate_headers loop_headers)
  have r: "fw_result (finishWorkout st now s) = Inr () \<and>
           activeSession (fw_state (finishWorkout st now s)) = None \<and>
           isFinishing (fw_state (finishWorkout st now s)) = False"
    using live hdr by (simp add: finishWorkout_def Let_def)
  have l0: "length (exerciseHeaders [InsertWorkout ?h]) = length ([] :: WorkoutExercise list)"
    by simp
  have "batchesOwned st workout ([] @ completedExercises session) ?loop"
    by (rule loop_batchesOwned[OF header_batchesOwned l0])
  then have "batchesOwned st workout (completedExercises session)
               (touchTemplate (template_id session) now ?loop)"
    using touchTemplate_batchesOwned by simp
  then have ow: "batchesOwned st workout (completedExercises session)
                   (fw_writes (finishWorkout st now s))"
    using w by simp
  have "batchesSent st workout ([] @ completedExercises session) ?loop"
    by (rule loop_batchesSent[OF header_batchesSent l0 completedExercises_have_sets])
  then have ls: "batchesSent st workout (completedExercises session) ?loop" by simp
  have ll: "length (exerciseHeaders ?loop) = length (completedExercises session)"
    by (simp add: loop_headers)
  have se: "batchesSent st workout (completedExercises session)
              (fw_writes (finishWorkout st now s))"
    unfolding w by (rule touchTemplate_batchesSent[OF ls ll])
  have c: "isCompleted = (\<lambda>x. status x = completed)"
    by (simp add: isCompleted_def fun_eq_iff)
  have ow': "\<forall>pre rows post.
            fw_writes (finishWorkout st now s) = pre @ InsertWorkoutSets rows # post \<longrightarrow>
            (\<exists>pre' wEx.
               length (exerciseHeaders pre') < length (completedExercises session) \<and>
               pre = pre' @ [InsertWorkoutExercise
                 (exerciseRow workout (completedExercises session ! length (exerciseHeaders pre')))] \<and>
               workout_exercises_insert st pre'
                 (exerciseRow workout (completedExercises session ! length (exerciseHeaders pre'))) =
                 Inr wEx \<and>
               rows = map (setRow wEx) (enumerate 0 (filter (\<lambda>x. status x = completed)
                        (sets (completedExercises session ! length (exerciseHeaders pre'))))))"
    using ow unfolding batchesOwned_def batchOf_def c by simp
  have se': "\<forall>pre r post wEx.
            fw_writes (finishWorkout st now s) = pre @ InsertWorkoutExercise r # post \<longrightarrow>
            workout_exercises_insert st pre r = Inr wEx \<longrightarrow>
            (\<exists>post'. post =
               InsertWorkoutSets (map (setRow wEx) (enumerate 0 (filter (\<lambda>x. status x = completed)
                 (sets (completedExercises session ! length (exerciseHeaders pre)))))) # post')"
    using se unfolding batchesSent_def batchOf_def c by simp
  have sk': "\<forall>pre r post.
            fw_writes (finishWorkout st now s) = pre @ InsertWorkoutExercise r # post \<longrightarrow>
            isl (workout_exercises_insert st pre r) \<longrightarrow>
            (\<forall>rows post'. post \<noteq> InsertWorkoutSets rows # post')"
    using sk unfolding skipsFailed_def by blast
  show ?thesis using r hs sk' ow' se' by blast
qed

theorem finishWorkout_absorbs_exercise_failure_witness:
  "activeSession twoDone = Some (doneSession\<lparr>exercises := exercises doneSession @ [exerciseF]\<rparr>) \<and>
   workouts_insert (storageRefusing ''e1'') []
     (workoutRow (doneSession\<lparr>exercises := exercises doneSession @ [exerciseF]\<rparr>)
        (elapsedSeconds twoDone) ''T'') =
     Inr (workoutRow (doneSession\<lparr>exercises := exercises doneSession @ [exerciseF]\<rparr>)
        (elapsedSeconds twoDone) ''T'') \<and>
   isl (workout_exercises_insert (storageRefusing ''e1'')
          [InsertWorkout (workoutRow (doneSession\<lparr>exercises := exercises doneSession @ [exerciseF]\<rparr>) 0 ''T'')]
          \<lparr>wx_id = ''e1'', workout_id = ''w1'', wx_exercise_id = ''squat'', wx_notes = None,
           wx_order = 0\<rparr>) \<and>
   fw_writes (finishWorkout (storageRefusing ''e1'') ''T'' twoDone) =
     [InsertWorkout (workoutRow (doneSession\<lparr>exercises := exercises doneSession @ [exerciseF]\<rparr>) 0 ''T''),
      InsertWorkoutExercise \<lparr>wx_id = ''e1'', workout_id = ''w1'', wx_exercise_id = ''squat'',
           wx_notes = None, wx_order = 0\<rparr>,
      InsertWorkoutExercise \<lparr>wx_id = ''e2'', workout_id = ''w1'', wx_exercise_id = ''press'',
           wx_notes = None, wx_order = 1\<rparr>,
      InsertWorkoutSets [\<lparr>wsr_id = ''s2'', workout_exercise_id = ''e2'', wsr_set_number = 1,
            wsr_tag = normal, wsr_actual_weight = Some 60,
            wsr_actual_reps = Some 8, wsr_rpe = None\<rparr>]] \<and>
   fw_result (finishWorkout (storageRefusing ''e1'') ''T'' twoDone) = Inr () \<and>
   activeSession (fw_state (finishWorkout (storageRefusing ''e1'') ''T'' twoDone)) = None \<and>
   isFinishing (fw_state (finishWorkout (storageRefusing ''e1'') ''T'' twoDone)) = False"
proof -
  let ?session = "doneSession\<lparr>exercises := exercises doneSession @ [exerciseF]\<rparr>"
  have h: "workouts_insert (storageRefusing ''e1'') []
             (workoutRow ?session (elapsedSeconds twoDone) ''T'') =
           Inr (workoutRow ?session (elapsedSeconds twoDone) ''T'')"
    by (simp add: storageRefusing_def)
  have f: "isl (workout_exercises_insert (storageRefusing ''e1'')
          [InsertWorkout (workoutRow ?session 0 ''T'')]
          \<lparr>wx_id = ''e1'', workout_id = ''w1'', wx_exercise_id = ''squat'', wx_notes = None,
           wx_order = 0\<rparr>)"
    by (simp add: storageRefusing_def)
  have w: "fw_writes (finishWorkout (storageRefusing ''e1'') ''T'' twoDone) =
     [InsertWorkout (workoutRow ?session 0 ''T''),
      InsertWorkoutExercise \<lparr>wx_id = ''e1'', workout_id = ''w1'', wx_exercise_id = ''squat'',
           wx_notes = None, wx_order = 0\<rparr>,
      InsertWorkoutExercise \<lparr>wx_id = ''e2'', workout_id = ''w1'', wx_exercise_id = ''press'',
           wx_notes = None, wx_order = 1\<rparr>,
      InsertWorkoutSets [\<lparr>wsr_id = ''s2'', workout_exercise_id = ''e2'', wsr_set_number = 1,
            wsr_tag = normal, wsr_actual_weight = Some 60,
            wsr_actual_reps = Some 8, wsr_rpe = None\<rparr>]]"
    by code_simp
  show ?thesis
    using finishWorkout_absorbs_exercise_failure[OF twoDone_live h] twoDone_live h f w by simp
qed

section \<open>Commit protocol: repeated calls\<close>

text \<open>
  Claim C1, as stated, has a second call of \<^verbatim>\<open>finishWorkout\<close> made while \<open>isFinishing\<close> is
  true do no write. While a call waits for the storage the store is the one it found, with
  \<open>isFinishing\<close> set and the session still live. A call that starts on that store issues
  its own header write, exercise write and batch of sets: the two calls together write two
  workout headers.
\<close>

theorem finishWorkout_repeats_while_finishing:
  "activeSession (legDayDone\<lparr>isFinishing := True\<rparr>) = Some doneSession \<and>
   isFinishing (legDayDone\<lparr>isFinishing := True\<rparr>) \<and>
   fw_writes (finishWorkout storageOk ''T2'' (legDayDone\<lparr>isFinishing := True\<rparr>)) =
     [InsertWorkout (workoutRow doneSession 0 ''T2''),
      InsertWorkoutExercise \<lparr>wx_id = ''e1'', workout_id = ''w1'', wx_exercise_id = ''squat'',
           wx_notes = None, wx_order = 0\<rparr>,
      InsertWorkoutSets [\<lparr>wsr_id = ''s1'', workout_exercise_id = ''e1'', wsr_set_number = 1,
            wsr_tag = normal, wsr_actual_weight = Some 100,
            wsr_actual_reps = Some 5, wsr_rpe = None\<rparr>]] \<and>
   length (workoutHeaders
     (fw_writes (finishWorkout storageOk ''T1'' legDayDone) @
      fw_writes (finishWorkout storageOk ''T2'' (legDayDone\<lparr>isFinishing := True\<rparr>)))) = 2"
  by code_simp

lemma finishWorkout_accepted:
  assumes live: "activeSession s = Some session"
    and hdr: "workouts_insert st [] (workoutRow session (elapsedSeconds s) now) = Inr workout"
  shows "fw_result (finishWorkout st now s) = Inr () \<and>
         fw_writes (finishWorkout st now s) =
           touchTemplate (template_id session) now
             (foldl (persistExercise st workout)
                [InsertWorkout (workoutRow session (elapsedSeconds s) now)]
                (completedExercises session))"
  using live hdr by (simp add: finishWorkout_def Let_def)

lemma finishWorkout_accepted_headers:
  assumes live: "activeSession s = Some session"
    and hdr: "workouts_insert st [] (workoutRow session (elapsedSeconds s) now) = Inr workout"
  shows "exerciseHeaders (fw_writes (finishWorkout st now s)) =
           map (exerciseRow workout) (completedExercises session)"
  using finishWorkout_accepted[OF live hdr] by (simp add: touchTemplate_headers loop_headers)

lemma finishWorkout_refused:
  assumes live: "activeSession s = Some session"
    and hdr: "workouts_insert st [] (workoutRow session (elapsedSeconds s) now) = Inl err"
  shows "fw_result (finishWorkout st now s) = Inl err \<and>
         fw_writes (finishWorkout st now s) =
           [InsertWorkout (workoutRow session (elapsedSeconds s) now)]"
  using live hdr by (simp add: finishWorkout_def Let_def)

lemma finishWorkout_inflight:
  "activeSession s = Some session \<Longrightarrow> fw_inflight (finishWorkout st now s) = s\<lparr>isFinishing := True\<rparr>"
  by (simp add: finishWorkout_def Let_def split: sum.splits)

text \<open>
  Claim C1, amended. \<^verbatim>\<open>finishWorkout\<close> is not guarded by \<open>isFinishing\<close>. On a live session it
  sets the flag on entry (while it waits for the storage the store has \<open>isFinishing\<close> true
  and the session still live) and clears it on exit, and it never reads it: the writes and
  the outcome of a call do not depend on the flag, and the only entry guard is the absence
  of a live session. Each of two overlapping calls writes the workout header of the
  session: a second call, started on the store that the first call has left while it
  waits, and whatever the storage then answers (\<open>stB\<close>), writes its own header first; when
  that header is accepted it returns normally after its own pass over the exercises (one
  exercise header for every exercise with a completed set); when it is refused the call
  throws with no other write. With no live session a call writes nothing and leaves the
  store as it is, so a call made after a call that returned normally writes nothing.
\<close>

theorem finishWorkout_entry_guard:
  "(activeSession s = Some session \<longrightarrow>
      fw_inflight (finishWorkout st now s) = s\<lparr>isFinishing := True\<rparr> \<and>
      isFinishing (fw_inflight (finishWorkout st now s)) \<and>
      activeSession (fw_inflight (finishWorkout st now s)) = Some session \<and>
      isFinishing (fw_state (finishWorkout st now s)) = False \<and>
      (\<exists>more. fw_writes (finishWorkout st now s) =
                InsertWorkout (workoutRow session (elapsedSeconds s) now) # more) \<and>
      (\<exists>more. fw_writes (finishWorkout stB nowB (fw_inflight (finishWorkout st now s))) =
                InsertWorkout (workoutRow session (elapsedSeconds s) nowB) # more) \<and>
      (\<forall>workout2.
         workouts_insert stB [] (workoutRow session (elapsedSeconds s) nowB) = Inr workout2 \<longrightarrow>
         fw_result (finishWorkout stB nowB (fw_inflight (finishWorkout st now s))) = Inr () \<and>
         exerciseHeaders (fw_writes (finishWorkout stB nowB (fw_inflight (finishWorkout st now s)))) =
           map (exerciseRow workout2) (completedExercises session)) \<and>
      (\<forall>err.
         workouts_insert stB [] (workoutRow session (elapsedSeconds s) nowB) = Inl err \<longrightarrow>
         fw_result (finishWorkout stB nowB (fw_inflight (finishWorkout st now s))) = Inl err \<and>
         fw_writes (finishWorkout stB nowB (fw_inflight (finishWorkout st now s))) =
           [InsertWorkout (workoutRow session (elapsedSeconds s) nowB)])) \<and>
   fw_writes (finishWorkout st now (s\<lparr>isFinishing := b\<rparr>)) = fw_writes (finishWorkout st now s) \<and>
   fw_result (finishWorkout st now (s\<lparr>isFinishing := b\<rparr>)) = fw_result (finishWorkout st now s) \<and>
   (activeSession s = None \<longrightarrow>
      finishWorkout st now s =
        \<lparr>fw_result = Inr (), fw_writes = [], fw_inflight = s, fw_state = s\<rparr>) \<and>
   (fw_result (finishWorkout st now s) = Inr () \<longrightarrow>
      finishWorkout st' now' (fw_state (finishWorkout st now s)) =
        \<lparr>fw_result = Inr (), fw_writes = [],
         fw_inflight = fw_state (finishWorkout st now s),
         fw_state = fw_state (finishWorkout st now s)\<rparr>)"
proof (intro conjI impI allI)
  assume live: "activeSession s = Some session"
  let ?w = "fw_inflight (finishWorkout st now s)"
  show w: "?w = s\<lparr>isFinishing := True\<rparr>"
    by (rule finishWorkout_inflight[OF live])
  show "isFinishing ?w" unfolding w by simp
  show live2: "activeSession ?w = Some session" unfolding w using live by simp
  show "isFinishing (fw_state (finishWorkout st now s)) = False"
    using live by (simp add: finishWorkout_def Let_def split: sum.splits)
  show "\<exists>more. fw_writes (finishWorkout st now s) =
                InsertWorkout (workoutRow session (elapsedSeconds s) now) # more"
    by (rule finishWorkout_first_write[OF live])
  have e: "elapsedSeconds ?w = elapsedSeconds s" unfolding w by simp
  show "\<exists>more. fw_writes (finishWorkout stB nowB ?w) =
                InsertWorkout (workoutRow session (elapsedSeconds s) nowB) # more"
    using finishWorkout_first_write[OF live2, of stB nowB] unfolding e .
  {
    fix workout2
    assume "workouts_insert stB [] (workoutRow session (elapsedSeconds s) nowB) = Inr workout2"
    then have h: "workouts_insert stB [] (workoutRow session (elapsedSeconds ?w) nowB) = Inr workout2"
      unfolding e .
    show "fw_result (finishWorkout stB nowB ?w) = Inr ()"
      using finishWorkout_accepted[OF live2 h] by simp
    show "exerciseHeaders (fw_writes (finishWorkout stB nowB ?w)) =
            map (exerciseRow workout2) (completedExercises session)"
      by (rule finishWorkout_accepted_headers[OF live2 h])
  }
  {
    fix err
    assume "workouts_insert stB [] (workoutRow session (elapsedSeconds s) nowB) = Inl err"
    then have h: "workouts_insert stB [] (workoutRow session (elapsedSeconds ?w) nowB) = Inl err"
      unfolding e .
    show "fw_result (finishWorkout stB nowB ?w) = Inl err"
      using finishWorkout_refused[OF live2 h] by simp
    show "fw_writes (finishWorkout stB nowB ?w) =
            [InsertWorkout (workoutRow session (elapsedSeconds s) nowB)]"
      using finishWorkout_refused[OF live2 h] unfolding e by simp
  }
next
  show "fw_writes (finishWorkout st now (s\<lparr>isFinishing := b\<rparr>)) = fw_writes (finishWorkout st now s)"
    by (simp add: finishWorkout_def Let_def split: option.splits sum.splits)
  show "fw_result (finishWorkout st now (s\<lparr>isFinishing := b\<rparr>)) = fw_result (finishWorkout st now s)"
    by (simp add: finishWorkout_def Let_def split: option.splits sum.splits)
next
  assume "activeSession s = None"
  then show "finishWorkout st now s =
      \<lparr>fw_result = Inr (), fw_writes = [], fw_inflight = s, fw_state = s\<rparr>"
    by (simp add: finishWorkout_def)
next
  assume "fw_result (finishWorkout st now s) = Inr ()"
  then have "activeSession (fw_state (finishWorkout st now s)) = None"
    by (simp add: finishWorkout_def Let_def split: option.splits sum.splits)
  then show "finishWorkout st' now' (fw_state (finishWorkout st now s)) =
        \<lparr>fw_result = Inr (), fw_writes = [],
         fw_inflight = fw_state (finishWorkout st now s),
         fw_state = fw_state (finishWorkout st now s)\<rparr>"
    by (simp add: finishWorkout_def)
qed

theorem finishWorkout_entry_guard_witness:
  "activeSession legDayDone = Some doneSession \<and>
   fw_inflight (finishWorkout storageOk ''T1'' legDayDone) = legDayDone\<lparr>isFinishing := True\<rparr> \<and>
   workouts_insert storageOk [] (workoutRow doneSession (elapsedSeconds legDayDone) ''T2'') =
     Inr (workoutRow doneSession (elapsedSeconds legDayDone) ''T2'') \<and>
   fw_result (finishWorkout storageOk ''T2''
                (fw_inflight (finishWorkout storageOk ''T1'' legDayDone))) = Inr () \<and>
   exerciseHeaders (fw_writes (finishWorkout storageOk ''T2''
                                 (fw_inflight (finishWorkout storageOk ''T1'' legDayDone)))) =
     map (exerciseRow (workoutRow doneSession (elapsedSeconds legDayDone) ''T2''))
       (completedExercises doneSession) \<and>
   workouts_insert storageDown [] (workoutRow doneSession (elapsedSeconds legDayDone) ''T2'') =
     Inl (DbError ''offline'') \<and>
   fw_writes (finishWorkout storageDown ''T2''
                (fw_inflight (finishWorkout storageOk ''T1'' legDayDone))) =
     [InsertWorkout (workoutRow doneSession (elapsedSeconds legDayDone) ''T2'')] \<and>
   fw_result (finishWorkout storageOk ''T1'' legDayDone) = Inr () \<and>
   fw_writes (finishWorkout storageOk ''T3''
                (fw_state (finishWorkout storageOk ''T1'' legDayDone))) = []"
proof -
  have ok: "workouts_insert storageOk []
              (workoutRow doneSession (elapsedSeconds legDayDone) ''T2'') =
            Inr (workoutRow doneSession (elapsedSeconds legDayDone) ''T2'')"
    by (simp add: storageOk_def)
  have down: "workouts_insert storageDown []
                (workoutRow doneSession (elapsedSeconds legDayDone) ''T2'') =
              Inl (DbError ''offline'')"
    by (simp add: storageDown_def)
  have r: "fw_result (finishWorkout storageOk ''T1'' legDayDone) = Inr ()"
    by code_simp
  note g1 = finishWorkout_entry_guard
    [where s = legDayDone and session = doneSession and st = storageOk and now = "''T1''"
       and stB = storageOk and nowB = "''T2''" and st' = storageOk and now' = "''T3''"]
  note g2 = finishWorkout_entry_guard
    [where s = legDayDone and session = doneSession and st = storageOk and now = "''T1''"
       and stB = storageDown and nowB = "''T2''"]
  have i: "fw_inflight (finishWorkout storageOk ''T1'' legDayDone) = legDayDone\<lparr>isFinishing := True\<rparr>"
    using g1 legDayDone_live by blast
  have a: "fw_result (finishWorkout storageOk ''T2''
                (fw_inflight (finishWorkout storageOk ''T1'' legDayDone))) = Inr () \<and>
     exerciseHeaders (fw_writes (finishWorkout storageOk ''T2''
                                 (fw_inflight (finishWorkout storageOk ''T1'' legDayDone)))) =
     map (exerciseRow (workoutRow doneSession (elapsedSeconds legDayDone) ''T2''))
       (completedExercises doneSession)"
    using g1 legDayDone_live ok by blast
  have d: "fw_writes (finishWorkout storageDown ''T2''
                (fw_inflight (finishWorkout storageOk ''T1'' legDayDone))) =
     [InsertWorkout (workoutRow doneSession (elapsedSeconds legDayDone) ''T2'')]"
    using g2 legDayDone_live down by blast
  have "finishWorkout storageOk ''T3'' (fw_state (finishWorkout storageOk ''T1'' legDayDone)) =
        \<lparr>fw_result = Inr (), fw_writes = [],
         fw_inflight = fw_state (finishWorkout storageOk ''T1'' legDayDone),
         fw_state = fw_state (finishWorkout storageOk ''T1'' legDayDone)\<rparr>"
    using g1 r by blast
  then have n: "fw_writes (finishWorkout storageOk ''T3''
                (fw_state (finishWorkout storageOk ''T1'' legDayDone))) = []"
    by simp
  show ?thesis
    using legDayDone_live i ok a down d r n by blast
qed

section \<open>Starting a session\<close>

text \<open>
  Claim C4, as stated, has \<^verbatim>\<open>startEmpty\<close> and \<^verbatim>\<open>startFromTemplate\<close> reject a start while a
  session is live and leave that session unchanged. On the live session ``Leg Day'' with
  its exercise, each of them installs the new session in its place.
\<close>

theorem start_overwrites_live_session:
  "map_option name (activeSession legDay) = Some ''Leg Day'' \<and>
   map_option exercises (activeSession legDay) = Some [exerciseE] \<and>
   map_option name (activeSession (startEmpty (freshId ''w2'') ''T'' ''Arms'' ''u1'' legDay)) =
     Some ''Arms'' \<and>
   map_option exercises (activeSession (startEmpty (freshId ''w2'') ''T'' ''Arms'' ''u1'' legDay)) =
     Some [] \<and>
   startEmpty (freshId ''w2'') ''T'' ''Arms'' ''u1'' legDay \<noteq> legDay \<and>
   map_option name (activeSession (startFromTemplate (freshId ''w3'') ''T'' pushTemplate ''u1'' legDay)) =
     Some ''Push Day'' \<and>
   startFromTemplate (freshId ''w3'') ''T'' pushTemplate ''u1'' legDay \<noteq> legDay"
  by code_simp

text \<open>
  Claim C4, amended. The store holds at most one session (\<open>activeSession\<close> is one optional
  value), but the start operations do not test it: whatever the store holds,
  \<^verbatim>\<open>startEmpty\<close> installs a new empty session and \<^verbatim>\<open>startFromTemplate\<close> the session built
  from the template, and both reset \<open>elapsedSeconds\<close> to 0. The rejection is made by their
  callers in the workouts screen: with a live session, \<^verbatim>\<open>handleStart\<close> and
  \<^verbatim>\<open>handleStartEmpty\<close> leave the store unchanged.
\<close>

theorem start_replaces_session:
  "activeSession (startEmpty gen now nm uid s) =
     Some \<lparr>aws_id = gen 0, user_id = uid, name = nm, template_id = None, started_at = now,
           exercises = [], pr_events = []\<rparr> \<and>
   elapsedSeconds (startEmpty gen now nm uid s) = 0 \<and>
   activeSession (startFromTemplate gen now template uid s) =
     Some (buildSessionFromTemplate gen now template uid) \<and>
   elapsedSeconds (startFromTemplate gen now template uid s) = 0 \<and>
   (activeSession s \<noteq> None \<longrightarrow>
      handleStart gen now user template s = s \<and>
      handleStartEmpty gen now user answer s = s)"
  by (simp add: startEmpty_def startFromTemplate_def handleStart_def handleStartEmpty_def Let_def)

theorem start_replaces_session_witness:
  "activeSession legDay \<noteq> None \<and>
   handleStart (freshId ''w2'') ''T'' (Some ''u1'') pushTemplate legDay = legDay \<and>
   handleStartEmpty (freshId ''w2'') ''T'' (Some ''u1'') (Some ''Arms'') legDay = legDay \<and>
   map_option name (activeSession (startEmpty (freshId ''w2'') ''T'' ''Arms'' ''u1'' legDay)) =
     Some ''Arms''"
proof -
  have a: "activeSession legDay \<noteq> None" by code_simp
  show ?thesis
    using start_replaces_session[where s = legDay and gen = "freshId ''w2''" and now = "''T''"
        and nm = "''Arms''" and uid = "''u1''" and user = "Some ''u1''"
        and template = pushTemplate and answer = "Some ''Arms''"] a
    by simp
qed

section \<open>Mutations and completed sets\<close>

lemma map_sets_rewrite:
  assumes "\<And>x. h (g x) = h x"
  shows "map h (concat (map sets (map (\<lambda>ex. if we_id ex \<noteq> e then ex
             else ex\<lparr>sets := map (\<lambda>x. if ws_id x \<noteq> i then x else g x) (sets ex)\<rparr>) exs))) =
         map h (concat (map sets exs))"
proof (induction exs)
  case Nil
  then show ?case by simp
next
  case (Cons ex exs)
  have "map h (map (\<lambda>x. if ws_id x \<noteq> i then x else g x) (sets ex)) = map h (sets ex)"
    using assms by (induction "sets ex") auto
  then show ?case using Cons by simp
qed

lemma list_all2_rewrite:
  assumes "\<And>x. P x (g x)" and "\<And>x. P x x"
  shows "list_all2 P (concat (map sets exs))
           (concat (map sets (map (\<lambda>ex. if we_id ex \<noteq> e then ex
             else ex\<lparr>sets := map (\<lambda>x. if ws_id x \<noteq> i then x else g x) (sets ex)\<rparr>) exs)))"
proof (induction exs)
  case Nil
  then show ?case by simp
next
  case (Cons ex exs)
  have r: "list_all2 P (sets ex) (sets ex)"
    using assms(2) by (simp add: list_all2_same)
  have "list_all2 P (sets ex) (map (\<lambda>x. if ws_id x \<noteq> i then x else g x) (sets ex))"
    using assms by (simp add: list_all2_map2 list_all2_same)
  then show ?case using Cons r by (simp add: list_all2_appendI)
qed

lemma removeSet_subset:
  "set (concat (map sets (map (\<lambda>ex. if we_id ex \<noteq> e then ex
             else ex\<lparr>sets := filter (\<lambda>ws. ws_id ws \<noteq> i) (sets ex)\<rparr>) exs)))
   \<subseteq> set (concat (map sets exs))"
  by (induction exs) auto

lemma notes_keep_sets:
  "concat (map sets (map (\<lambda>ex. if we_id ex \<noteq> e then ex else ex\<lparr>ex_notes := Some n\<rparr>) exs)) =
   concat (map sets exs)"
  by (induction exs) simp_all

lemma allSets_live:
  "activeSession s = Some session \<Longrightarrow> allSets s = concat (map sets (exercises session))"
  by (simp add: allSets_def)

lemma allSets_idle: "activeSession s = None \<Longrightarrow> allSets (onExercises f s) = allSets s"
  by (simp add: allSets_def onExercises_def)

lemma allSets_changed:
  "activeSession s = Some session \<Longrightarrow>
   allSets (onExercises f s) = concat (map sets (f (exercises session)))"
  by (simp add: allSets_def onExercises_def)

text \<open>A rewrite of the matching set that keeps an observation \<open>h\<close> keeps it on all sets.\<close>

lemma allSets_map_rewrite:
  assumes "\<And>x. h (g x) = h x"
  shows "map h (allSets (onExercises (map (\<lambda>ex. if we_id ex \<noteq> e then ex
             else ex\<lparr>sets := map (\<lambda>x. if ws_id x \<noteq> i then x else g x) (sets ex)\<rparr>)) s)) =
         map h (allSets s)"
proof (cases "activeSession s")
  case None
  then show ?thesis by (simp only: allSets_idle)
next
  case (Some session)
  show ?thesis
    by (simp only: allSets_changed[OF Some] allSets_live[OF Some]
        map_sets_rewrite[of h g, OF assms])
qed

lemma allSets_list_all2_rewrite:
  assumes "\<And>x. P x (g x)" and "\<And>x. P x x"
  shows "list_all2 P (allSets s)
           (allSets (onExercises (map (\<lambda>ex. if we_id ex \<noteq> e then ex
             else ex\<lparr>sets := map (\<lambda>x. if ws_id x \<noteq> i then x else g x) (sets ex)\<rparr>)) s))"
proof (cases "activeSession s")
  case None
  then show ?thesis using assms(2) by (simp add: allSets_idle list_all2_same)
next
  case (Some session)
  show ?thesis
    by (simp only: allSets_changed[OF Some] allSets_live[OF Some]
        list_all2_rewrite[of P g, OF assms])
qed

lemma allSets_removeSet: "set (allSets (removeSet e i s)) \<subseteq> set (allSets s)"
proof (cases "activeSession s")
  case None
  then show ?thesis unfolding removeSet_def by (simp add: allSets_idle)
next
  case (Some session)
  show ?thesis unfolding removeSet_def
    by (simp only: allSets_changed[OF Some] allSets_live[OF Some] removeSet_subset)
qed

lemma allSets_updateExerciseNotes: "allSets (updateExerciseNotes e n s) = allSets s"
proof (cases "activeSession s")
  case None
  then show ?thesis unfolding updateExerciseNotes_def by (simp only: allSets_idle)
next
  case (Some session)
  show ?thesis unfolding updateExerciseNotes_def
    by (simp only: allSets_changed[OF Some] allSets_live[OF Some] notes_keep_sets)
qed

lemma addSetLoop_keeps:
  "set (concat (map sets exs)) \<subseteq> set (concat (map sets (addSetLoop gen n e exs)))"
  by (induction exs arbitrary: n) (auto simp: Let_def)

lemma allSets_addSet: "set (allSets s) \<subseteq> set (allSets (addSet gen e s))"
proof (cases "activeSession s")
  case None
  then show ?thesis unfolding addSet_def by (simp add: allSets_idle)
next
  case (Some session)
  show ?thesis unfolding addSet_def
    by (simp only: allSets_changed[OF Some] allSets_live[OF Some] addSetLoop_keeps)
qed

lemma allSets_removeExercise: "set (allSets (removeExercise e s)) \<subseteq> set (allSets s)"
proof (cases "activeSession s")
  case None
  then show ?thesis unfolding removeExercise_def by (simp add: allSets_idle)
next
  case (Some session)
  have "set (concat (map sets (filter (\<lambda>ex. we_id ex \<noteq> e) (exercises session))))
        \<subseteq> set (concat (map sets (exercises session)))"
    by auto
  then show ?thesis unfolding removeExercise_def
    by (simp only: allSets_changed[OF Some] allSets_live[OF Some])
qed

text \<open>
  Claim C5, as stated, has no mutation change the \<open>actual_*\<close> fields of a completed set or
  return its status to \<open>pending\<close>. \<^verbatim>\<open>updateSet\<close> has no test of the status: on the completed
  set of 100 kg for 5, the payload \<^verbatim>\<open>{ actual_weight: 50, actual_reps: undefined, status:
  'pending' }\<close> replaces all three fields.
\<close>

theorem updateSet_changes_completed_set:
  "allSets legDayDone = [setA\<lparr>status := completed\<rparr>] \<and>
   allSets (updateSet ''e1'' ''s1''
              (noUpdates\<lparr>u_actual_weight := Some (Some 50), u_actual_reps := Some None,
                         u_status := Some pending\<rparr>) legDayDone) =
     [setA\<lparr>actual_weight := Some 50, actual_reps := None, status := pending\<rparr>]"
  by code_simp

lemma updateSet_at:
  assumes live: "activeSession s = Some session"
    and i: "i < length (exercises session)"
    and j: "j < length (sets (exercises session ! i))"
  shows "\<exists>session'.
           activeSession (updateSet exId setId updates s) = Some session' \<and>
           length (exercises session') = length (exercises session) \<and>
           length (sets (exercises session' ! i)) = length (sets (exercises session ! i)) \<and>
           sets (exercises session' ! i) ! j =
             (if we_id (exercises session ! i) = exId \<and>
                 ws_id (sets (exercises session ! i) ! j) = setId
              then spread (sets (exercises session ! i) ! j) updates
              else sets (exercises session ! i) ! j)"
  using live i j by (simp add: updateSet_def onExercises_def)

lemma spread_fields:
  "actual_weight (spread x updates) =
     (case u_actual_weight updates of None \<Rightarrow> actual_weight x | Some v \<Rightarrow> v) \<and>
   actual_reps (spread x updates) =
     (case u_actual_reps updates of None \<Rightarrow> actual_reps x | Some v \<Rightarrow> v) \<and>
   status (spread x updates) =
     (case u_status updates of None \<Rightarrow> status x | Some v \<Rightarrow> v)"
  by (simp add: spread_def nullish_def)

lemma updateSet_overwrites_completed:
  assumes live: "activeSession s = Some session"
    and i: "i < length (exercises session)"
    and j: "j < length (sets (exercises session ! i))"
    and m: "we_id (exercises session ! i) = exId" "ws_id (sets (exercises session ! i) ! j) = setId"
    and c: "status (sets (exercises session ! i) ! j) = completed"
    and u: "u_actual_weight updates = Some w" "u_actual_reps updates = Some r" "u_status updates = Some st"
  shows "\<exists>session'.
           activeSession (updateSet exId setId updates s) = Some session' \<and>
           actual_weight (sets (exercises session' ! i) ! j) = w \<and>
           actual_reps (sets (exercises session' ! i) ! j) = r \<and>
           status (sets (exercises session' ! i) ! j) = st"
  using updateSet_at[OF live i j, of exId setId updates] m u spread_fields[of "sets (exercises session ! i) ! j" updates]
  by auto

lemma row_guard:
  "status row = completed \<Longrightarrow>
   weightEdited ex row v s = s \<and> repsEdited ex row v s = s \<and> completePressed d ex row s = s"
  by (simp add: weightEdited_def repsEdited_def completePressed_def)

text \<open>
  Claim C5, amended. \<^verbatim>\<open>updateSet\<close> merges its payload into every set with the given identity
  in the exercise with the given identity, whatever the status of that set, and leaves
  every other set as it is: the set at each position becomes \<^verbatim>\<open>{ ...ws, ...updates }\<close> when it
  matches. So it keeps \<open>actual_weight\<close>, \<open>actual_reps\<close> and \<open>status\<close> of every set when the
  payload carries none of these three keys, and a payload that carries them overwrites
  them, also on a completed set, which can thus return to \<open>pending\<close>. \<^verbatim>\<open>completeSet\<close> keeps
  the \<open>actual_*\<close> fields of every set, and each status either stays or becomes \<open>completed\<close>,
  so a completed set stays completed. \<^verbatim>\<open>removeSet\<close> and \<^verbatim>\<open>removeExercise\<close> only delete sets,
  \<^verbatim>\<open>addSet\<close> keeps every set there was, and \<^verbatim>\<open>updateExerciseNotes\<close> keeps the sets as they
  are. The guard for completed sets is in the session screen: on the row of a completed
  set, editing the weight or the repetitions and pressing the button change nothing, and
  a long press on the button only deletes sets.
\<close>

theorem completed_set_mutations:
  "(u_actual_weight updates = None \<and> u_actual_reps updates = None \<and> u_status updates = None \<longrightarrow>
      map actual_weight (allSets (updateSet exId setId updates s)) = map actual_weight (allSets s) \<and>
      map actual_reps (allSets (updateSet exId setId updates s)) = map actual_reps (allSets s) \<and>
      map status (allSets (updateSet exId setId updates s)) = map status (allSets s)) \<and>
   map actual_weight (allSets (completeSet exId setId s)) = map actual_weight (allSets s) \<and>
   map actual_reps (allSets (completeSet exId setId s)) = map actual_reps (allSets s) \<and>
   list_all2 (\<lambda>old new. status new = status old \<or> status new = completed)
     (allSets s) (allSets (completeSet exId setId s)) \<and>
   set (allSets (removeSet exId setId s)) \<subseteq> set (allSets s) \<and>
   set (allSets (removeExercise exId s)) \<subseteq> set (allSets s) \<and>
   set (allSets s) \<subseteq> set (allSets (addSet gen exId s)) \<and>
   allSets (updateExerciseNotes exId newNotes s) = allSets s \<and>
   (activeSession s = Some session \<and> i < length (exercises session) \<and>
    j < length (sets (exercises session ! i)) \<longrightarrow>
      (\<exists>session'.
         activeSession (updateSet exId setId updates s) = Some session' \<and>
         length (exercises session') = length (exercises session) \<and>
         length (sets (exercises session' ! i)) = length (sets (exercises session ! i)) \<and>
         sets (exercises session' ! i) ! j =
           (if we_id (exercises session ! i) = exId \<and>
               ws_id (sets (exercises session ! i) ! j) = setId
            then spread (sets (exercises session ! i) ! j) updates
            else sets (exercises session ! i) ! j))) \<and>
   actual_weight (spread x updates) =
     (case u_actual_weight updates of None \<Rightarrow> actual_weight x | Some v \<Rightarrow> v) \<and>
   actual_reps (spread x updates) =
     (case u_actual_reps updates of None \<Rightarrow> actual_reps x | Some v \<Rightarrow> v) \<and>
   status (spread x updates) =
     (case u_status updates of None \<Rightarrow> status x | Some v \<Rightarrow> v) \<and>
   (activeSession s = Some session \<and> i < length (exercises session) \<and>
    j < length (sets (exercises session ! i)) \<and>
    we_id (exercises session ! i) = exId \<and> ws_id (sets (exercises session ! i) ! j) = setId \<and>
    status (sets (exercises session ! i) ! j) = completed \<and>
    u_actual_weight updates = Some newWeight \<and> u_actual_reps updates = Some newReps \<and>
    u_status updates = Some newStatus \<longrightarrow>
      (\<exists>session'.
         activeSession (updateSet exId setId updates s) = Some session' \<and>
         actual_weight (sets (exercises session' ! i) ! j) = newWeight \<and>
         actual_reps (sets (exercises session' ! i) ! j) = newReps \<and>
         status (sets (exercises session' ! i) ! j) = newStatus)) \<and>
   (status row = completed \<longrightarrow>
      weightEdited ex row v s = s \<and> repsEdited ex row v s = s \<and>
      completePressed restSeconds ex row s = s) \<and>
   set (allSets (deleteLongPressed ex row s)) \<subseteq> set (allSets s)"
proof (intro conjI impI)
  assume u: "u_actual_weight updates = None \<and> u_actual_reps updates = None \<and> u_status updates = None"
  show "map actual_weight (allSets (updateSet exId setId updates s)) = map actual_weight (allSets s)"
    unfolding updateSet_def by (rule allSets_map_rewrite) (simp add: spread_def nullish_def u)
  show "map actual_reps (allSets (updateSet exId setId updates s)) = map actual_reps (allSets s)"
    unfolding updateSet_def by (rule allSets_map_rewrite) (simp add: spread_def nullish_def u)
  show "map status (allSets (updateSet exId setId updates s)) = map status (allSets s)"
    unfolding updateSet_def by (rule allSets_map_rewrite) (simp add: spread_def nullish_def u)
next
  show "map actual_weight (allSets (completeSet exId setId s)) = map actual_weight (allSets s)"
    unfolding completeSet_def by (rule allSets_map_rewrite) simp
  show "map actual_reps (allSets (completeSet exId setId s)) = map actual_reps (allSets s)"
    unfolding completeSet_def by (rule allSets_map_rewrite) simp
  show "list_all2 (\<lambda>old new. status new = status old \<or> status new = completed)
     (allSets s) (allSets (completeSet exId setId s))"
    unfolding completeSet_def by (rule allSets_list_all2_rewrite) simp_all
  show "set (allSets (removeSet exId setId s)) \<subseteq> set (allSets s)"
    by (rule allSets_removeSet)
  show "set (allSets (removeExercise exId s)) \<subseteq> set (allSets s)"
    by (rule allSets_removeExercise)
  show "set (allSets s) \<subseteq> set (allSets (addSet gen exId s))"
    by (rule allSets_addSet)
  show "allSets (updateExerciseNotes exId newNotes s) = allSets s"
    by (rule allSets_updateExerciseNotes)
next
  assume "activeSession s = Some session \<and> i < length (exercises session) \<and>
    j < length (sets (exercises session ! i))"
  then show "\<exists>session'.
         activeSession (updateSet exId setId updates s) = Some session' \<and>
         length (exercises session') = length (exercises session) \<and>
         length (sets (exercises session' ! i)) = length (sets (exercises session ! i)) \<and>
         sets (exercises session' ! i) ! j =
           (if we_id (exercises session ! i) = exId \<and>
               ws_id (sets (exercises session ! i) ! j) = setId
            then spread (sets (exercises session ! i) ! j) updates
            else sets (exercises session ! i) ! j)"
    using updateSet_at by blast
next
  show "actual_weight (spread x updates) =
     (case u_actual_weight updates of None \<Rightarrow> actual_weight x | Some v \<Rightarrow> v)"
    using spread_fields by blast
  show "actual_reps (spread x updates) =
     (case u_actual_reps updates of None \<Rightarrow> actual_reps x | Some v \<Rightarrow> v)"
    using spread_fields by blast
  show "status (spread x updates) =
     (case u_status updates of None \<Rightarrow> status x | Some v \<Rightarrow> v)"
    using spread_fields by blast
next
  assume "activeSession s = Some session \<and> i < length (exercises session) \<and>
    j < length (sets (exercises session ! i)) \<and>
    we_id (exercises session ! i) = exId \<and> ws_id (sets (exercises session ! i) ! j) = setId \<and>
    status (sets (exercises session ! i) ! j) = completed \<and>
    u_actual_weight updates = Some newWeight \<and> u_actual_reps updates = Some newReps \<and>
    u_status updates = Some newStatus"
  then show "\<exists>session'.
         activeSession (updateSet exId setId updates s) = Some session' \<and>
         actual_weight (sets (exercises session' ! i) ! j) = newWeight \<and>
         actual_reps (sets (exercises session' ! i) ! j) = newReps \<and>
         status (sets (exercises session' ! i) ! j) = newStatus"
    using updateSet_overwrites_completed by blast
next
  assume c: "status row = completed"
  show "weightEdited ex row v s = s" using row_guard[OF c] by blast
  show "repsEdited ex row v s = s" using row_guard[OF c] by blast
  show "completePressed restSeconds ex row s = s" using row_guard[OF c] by blast
next
  show "set (allSets (deleteLongPressed ex row s)) \<subseteq> set (allSets s)"
    unfolding deleteLongPressed_def by (rule allSets_removeSet)
qed

theorem completed_set_mutations_witness:
  "u_actual_weight (noUpdates\<lparr>u_tag := Some working, u_rpe := Some (Some 8)\<rparr>) = None \<and>
   u_actual_reps (noUpdates\<lparr>u_tag := Some working, u_rpe := Some (Some 8)\<rparr>) = None \<and>
   u_status (noUpdates\<lparr>u_tag := Some working, u_rpe := Some (Some 8)\<rparr>) = None \<and>
   allSets (updateSet ''e1'' ''s1'' (noUpdates\<lparr>u_tag := Some working, u_rpe := Some (Some 8)\<rparr>)
              legDayDone) =
     [setA\<lparr>tag := working, rpe := Some 8, status := completed\<rparr>] \<and>
   map status (allSets (updateSet ''e1'' ''s1''
                          (noUpdates\<lparr>u_tag := Some working, u_rpe := Some (Some 8)\<rparr>) legDayDone)) =
     map status (allSets legDayDone) \<and>
   map status (allSets legDayDone) = [completed] \<and>
   status (sets (exercises doneSession ! 0) ! 0) = completed \<and>
   (\<exists>session'.
      activeSession (updateSet ''e1'' ''s1''
        (noUpdates\<lparr>u_actual_weight := Some (Some 50), u_actual_reps := Some None,
                   u_status := Some pending\<rparr>) legDayDone) = Some session' \<and>
      actual_weight (sets (exercises session' ! 0) ! 0) = Some 50 \<and>
      actual_reps (sets (exercises session' ! 0) ! 0) = None \<and>
      status (sets (exercises session' ! 0) ! 0) = pending) \<and>
   weightEdited exerciseE (setA\<lparr>status := completed\<rparr>) (Some 50) legDayDone = legDayDone"
proof -
  have a: "allSets (updateSet ''e1'' ''s1'' (noUpdates\<lparr>u_tag := Some working, u_rpe := Some (Some 8)\<rparr>)
                      legDayDone) =
     [setA\<lparr>tag := working, rpe := Some 8, status := completed\<rparr>]"
    by code_simp
  have b: "map status (allSets legDayDone) = [completed]"
    by code_simp
  have c: "u_actual_weight (noUpdates\<lparr>u_tag := Some working, u_rpe := Some (Some 8)\<rparr>) = None \<and>
     u_actual_reps (noUpdates\<lparr>u_tag := Some working, u_rpe := Some (Some 8)\<rparr>) = None \<and>
     u_status (noUpdates\<lparr>u_tag := Some working, u_rpe := Some (Some 8)\<rparr>) = None"
    by (simp add: noUpdates_def)
  have k: "map status (allSets (updateSet ''e1'' ''s1''
                          (noUpdates\<lparr>u_tag := Some working, u_rpe := Some (Some 8)\<rparr>) legDayDone)) =
     map status (allSets legDayDone)"
    using completed_set_mutations
      [where updates = "noUpdates\<lparr>u_tag := Some working, u_rpe := Some (Some 8)\<rparr>"
         and exId = "''e1''" and setId = "''s1''" and s = legDayDone] c
    by blast
  have d: "(0::nat) < length (exercises doneSession) \<and>
           (0::nat) < length (sets (exercises doneSession ! 0)) \<and>
           we_id (exercises doneSession ! 0) = ''e1'' \<and>
           ws_id (sets (exercises doneSession ! 0) ! 0) = ''s1'' \<and>
           status (sets (exercises doneSession ! 0) ! 0) = completed"
    by (simp add: doneSession_def exerciseE_def setA_def)
  have u: "u_actual_weight (noUpdates\<lparr>u_actual_weight := Some (Some 50), u_actual_reps := Some None,
                   u_status := Some pending\<rparr>) = Some (Some 50) \<and>
           u_actual_reps (noUpdates\<lparr>u_actual_weight := Some (Some 50), u_actual_reps := Some None,
                   u_status := Some pending\<rparr>) = Some None \<and>
           u_status (noUpdates\<lparr>u_actual_weight := Some (Some 50), u_actual_reps := Some None,
                   u_status := Some pending\<rparr>) = Some pending"
    by (simp add: noUpdates_def)
  have o: "\<exists>session'.
      activeSession (updateSet ''e1'' ''s1''
        (noUpdates\<lparr>u_actual_weight := Some (Some 50), u_actual_reps := Some None,
                   u_status := Some pending\<rparr>) legDayDone) = Some session' \<and>
      actual_weight (sets (exercises session' ! 0) ! 0) = Some 50 \<and>
      actual_reps (sets (exercises session' ! 0) ! 0) = None \<and>
      status (sets (exercises session' ! 0) ! 0) = pending"
    using completed_set_mutations
      [where updates = "noUpdates\<lparr>u_actual_weight := Some (Some 50), u_actual_reps := Some None,
                   u_status := Some pending\<rparr>"
         and exId = "''e1''" and setId = "''s1''" and s = legDayDone and session = doneSession
         and i = 0 and j = 0 and newWeight = "Some 50" and newReps = None and newStatus = pending]
      legDayDone_live d u
    by blast
  have g: "weightEdited exerciseE (setA\<lparr>status := completed\<rparr>) (Some 50) legDayDone = legDayDone"
    using completed_set_mutations
      [where row = "setA\<lparr>status := completed\<rparr>" and ex = exerciseE and v = "Some 50"
         and s = legDayDone]
    by simp
  show ?thesis using a b c k d o g by blast
qed

section \<open>Personal records\<close>

lemma guardedEstimate_cases:
  "guardedEstimate None r = 0 \<and> guardedEstimate w None = 0 \<and>
   guardedEstimate (Some a) (Some b) = (if a = 0 \<or> b = 0 then 0 else estimate1RM a b)"
  by (simp add: guardedEstimate_def truthy_def nullish_def split: option.splits)

text \<open>
  Claim C7. The row of a completed set, at index \<open>idx\<close> of its exercise, is shown as a PR
  exactly when the set's estimate is above zero and above the estimate of the set at
  index \<open>idx\<close> of the previous session's snapshot. The previous estimate is zero when the
  snapshot is absent, has no list of sets, or has no set at \<open>idx\<close>. An estimate, current
  or previous, is zero when the weight or the repetitions are missing (or are the number
  zero, which the conditional treats alike), and is \<^verbatim>\<open>estimate1RM\<close> of the two otherwise.
  With no snapshot, every positive current estimate is a PR.
\<close>

theorem rowIsPR_iff:
  assumes "idx < length (sets ex)" and "status (sets ex ! idx) = completed"
  shows "rowIsPR ex ! idx =
           (0 < current1rm (sets ex ! idx) \<and>
            (case previous ex of
               None \<Rightarrow> 0
             | Some p \<Rightarrow>
                 (case prev_sets p of
                    None \<Rightarrow> 0
                  | Some ss \<Rightarrow>
                      if idx < length ss
                      then guardedEstimate (weight (ss ! idx)) (reps (ss ! idx))
                      else 0)) < current1rm (sets ex ! idx)) \<and>
         current1rm (sets ex ! idx) =
           guardedEstimate (actual_weight (sets ex ! idx)) (actual_reps (sets ex ! idx)) \<and>
         guardedEstimate None r0 = 0 \<and> guardedEstimate w0 None = 0 \<and>
         guardedEstimate (Some a) (Some b) = (if a = 0 \<or> b = 0 then 0 else estimate1RM a b) \<and>
         (previous ex = None \<longrightarrow> rowIsPR ex ! idx = (0 < current1rm (sets ex ! idx)))"
proof -
  have e: "enumerate 0 (sets ex) ! idx = (idx, sets ex ! idx)"
    using assms(1) by (simp add: nth_enumerate_eq)
  have row: "rowIsPR ex ! idx = isPR ex (idx, sets ex ! idx)"
    using assms e by (simp add: rowIsPR_def)
  have p: "prev1rm (prevSetAt ex idx) =
      (case previous ex of
         None \<Rightarrow> 0
       | Some p \<Rightarrow>
           (case prev_sets p of
              None \<Rightarrow> 0
            | Some ss \<Rightarrow>
                if idx < length ss
                then guardedEstimate (weight (ss ! idx)) (reps (ss ! idx))
                else 0))"
    by (simp add: prev1rm_def prevSetAt_def split: option.splits)
  have c: "current1rm (sets ex ! idx) =
             guardedEstimate (actual_weight (sets ex ! idx)) (actual_reps (sets ex ! idx))"
    by (simp add: current1rm_def)
  show ?thesis
    using row p c guardedEstimate_cases by (simp add: isPR_def split: option.splits)
qed

theorem rowIsPR_iff_witness:
  "(0 :: nat) < length (sets exerciseB) \<and>
   status (sets exerciseB ! 0) = completed \<and>
   current1rm (sets exerciseB ! 0) = 350 / 3 \<and>
   guardedEstimate (Some 90) (Some 5) = 105 \<and>
   rowIsPR exerciseB ! 0 = True"
proof -
  have l: "(0 :: nat) < length (sets exerciseB)" by code_simp
  have c: "status (sets exerciseB ! 0) = completed" by code_simp
  have v: "current1rm (sets exerciseB ! 0) = 350 / 3" by code_simp
  have g: "guardedEstimate (Some 90) (Some 5) = 105" by code_simp
  have pr: "previous exerciseB = Some \<lparr>prev_sets = Some [\<lparr>weight = Some 90, reps = Some 5\<rparr>]\<rparr>"
    by (simp add: exerciseB_def)
  show ?thesis
    using rowIsPR_iff[OF l c] l c v g pr by simp
qed

end
